theory Spec2Isabelle
  imports Main "HOL-Library.List_Lexorder" "HOL-Library.Sublist" "HOL-Library.AList"
begin

section \<open>Python values\<close>

text \<open>
  A Python \<open>str\<close> is a sequence of Unicode code points: it is modelled as a list of
  natural numbers. \<open>u\<close> turns an ASCII literal into such a list. The order on
  \<open>ustr\<close> is the lexicographic order on code points, which is the order Python
  uses to compare strings (and \<open>pathlib\<close> to compare two paths of one directory).
\<close>

type_synonym ustr = "nat list"

definition u :: "string \<Rightarrow> ustr" where
  "u s = map of_char s"

text \<open>
  A decoded JSON document. Python dictionaries keep insertion order, so an object is an
  association list (with distinct keys, the first binding being the one \<open>map_of\<close>
  reads). JSON numbers are the integers; floating-point numbers are outside the model.
\<close>

datatype json =
    JNull
  | JBool bool
  | JInt int
  | JStr ustr
  | JList "json list"
  | JObj "(ustr \<times> json) list"

datatype pyerr = TypeError | AttributeError

text \<open>Python truthiness: \<open>not v\<close> is \<open>\<not> truthy v\<close>.\<close>

fun truthy :: "json \<Rightarrow> bool" where
  "truthy JNull = False"
| "truthy (JBool b) = b"
| "truthy (JInt n) = (n \<noteq> 0)"
| "truthy (JStr s) = (s \<noteq> [])"
| "truthy (JList vs) = (vs \<noteq> [])"
| "truthy (JObj kvs) = (kvs \<noteq> [])"

fun is_dict :: "json \<Rightarrow> bool" where
  "is_dict (JObj kvs) = True"
| "is_dict v = False"

text \<open>\<open>k in s\<close> for two strings: \<open>k\<close> occurs in \<open>s\<close> as a contiguous substring.\<close>

fun str_in :: "ustr \<Rightarrow> ustr \<Rightarrow> bool" where
  "str_in k [] = (k = [])"
| "str_in k (c # s) = (prefix k (c # s) \<or> str_in k s)"

text \<open>\<open>sep.join(xs)\<close>.\<close>

fun join :: "ustr \<Rightarrow> ustr list \<Rightarrow> ustr" where
  "join sep [] = []"
| "join sep [x] = x"
| "join sep (x # y # ys) = x @ sep @ join sep (y # ys)"

text \<open>
  \<open>k in v\<close> for a string \<open>k\<close>: key membership in a dictionary, element membership
  in a list, substring test in a string; any other operand raises \<open>TypeError\<close>.
\<close>

fun py_in :: "ustr \<Rightarrow> json \<Rightarrow> pyerr + bool" where
  "py_in k (JObj kvs) = Inr (map_of kvs k \<noteq> None)"
| "py_in k (JList vs) = Inr (JStr k \<in> set vs)"
| "py_in k (JStr s) = Inr (str_in k s)"
| "py_in k v = Inl TypeError"

text \<open>
  \<open>v[k]\<close> for a string \<open>k\<close>: only a dictionary can be indexed by a string (a missing
  key is never read by the code below, which tests \<open>k in v\<close> first).
\<close>

fun py_getitem :: "json \<Rightarrow> ustr \<Rightarrow> pyerr + json" where
  "py_getitem (JObj kvs) k = (case map_of kvs k of Some v \<Rightarrow> Inr v | None \<Rightarrow> Inl TypeError)"
| "py_getitem v k = Inl TypeError"

section \<open>The fetcher: \<open>02_get_BODACC_by_day.py\<close>\<close>

subsection \<open>\<open>_extract_records\<close>\<close>

text \<open>
  \<open>k in payload and isinstance(payload[k], X)\<close>, followed by the read of \<open>payload[k]\<close>:
  the value under \<open>k\<close> when the test holds.
\<close>

definition key_with :: "(json \<Rightarrow> bool) \<Rightarrow> ustr \<Rightarrow> json \<Rightarrow> pyerr + json option" where
  "key_with isinst k payload =
     (case py_in k payload of
        Inl e \<Rightarrow> Inl e
      | Inr False \<Rightarrow> Inr None
      | Inr True \<Rightarrow>
          (case py_getitem payload k of
             Inl e \<Rightarrow> Inl e
           | Inr v \<Rightarrow> Inr (if isinst v then Some v else None)))"

fun is_list :: "json \<Rightarrow> bool" where
  "is_list (JList vs) = True"
| "is_list v = False"

text \<open>The loop over \<open>payload["results"]\<close>, with the list \<open>cleaned\<close> it appends to.\<close>

fun results_loop :: "json list \<Rightarrow> json list \<Rightarrow> json list" where
  "results_loop cleaned [] = cleaned"
| "results_loop cleaned (item # items) =
     (case item of
        JObj kvs \<Rightarrow>
          (case map_of kvs (u ''record'') of
             Some (JObj r) \<Rightarrow> results_loop (cleaned @ [JObj r]) items
           | _ \<Rightarrow>
             (case map_of kvs (u ''fields'') of
                Some (JObj f) \<Rightarrow> results_loop (cleaned @ [JObj f]) items
              | _ \<Rightarrow> results_loop (cleaned @ [item]) items))
      | _ \<Rightarrow> results_loop cleaned items)"

definition extract_records :: "json \<Rightarrow> pyerr + json list" where
  "extract_records payload =
     (if \<not> truthy payload then Inr []
      else
        (case key_with is_list (u ''results'') payload of
           Inl e \<Rightarrow> Inl e
         | Inr (Some (JList records)) \<Rightarrow> Inr (results_loop [] records)
         | Inr _ \<Rightarrow>
             (case key_with is_list (u ''records'') payload of
                Inl e \<Rightarrow> Inl e
              | Inr (Some (JList records)) \<Rightarrow> Inr records
              | Inr _ \<Rightarrow> Inr [])))"

text \<open>
  What one item of a \<open>results\<close> list contributes, in the words of the claim: its inner
  \<open>record\<close> dictionary, else its inner \<open>fields\<close> dictionary, else the item itself; an
  item that is not a dictionary contributes nothing.
\<close>

definition unwrap_item :: "json \<Rightarrow> json option" where
  "unwrap_item item =
     (case item of
        JObj kvs \<Rightarrow>
          (case map_of kvs (u ''record'') of
             Some (JObj r) \<Rightarrow> Some (JObj r)
           | _ \<Rightarrow>
             (case map_of kvs (u ''fields'') of
                Some (JObj f) \<Rightarrow> Some (JObj f)
              | _ \<Rightarrow> Some item))
      | _ \<Rightarrow> None)"

definition results_of :: "(ustr \<times> json) list \<Rightarrow> json list option" where
  "results_of kvs = (case map_of kvs (u ''results'') of Some (JList items) \<Rightarrow> Some items | _ \<Rightarrow> None)"

definition records_of :: "(ustr \<times> json) list \<Rightarrow> json list option" where
  "records_of kvs = (case map_of kvs (u ''records'') of Some (JList rs) \<Rightarrow> Some rs | _ \<Rightarrow> None)"

subsection \<open>The library\<close>

text \<open>
  The functions of Python's standard library that the program calls and whose tables
  (the Unicode database, the JSON grammar, the calendar) are not part of it are
  parameters of the model:
  \<^item> \<open>py_isdigit c\<close>: \<open>c.isdigit()\<close> for one character;
  \<^item> \<open>py_lower s\<close>: \<open>s.lower()\<close>;
  \<^item> \<open>py_nfd s\<close>: \<open>unicodedata.normalize("NFD", s)\<close>;
  \<^item> \<open>py_is_Mn c\<close>: \<open>unicodedata.category(c) == "Mn"\<close>;
  \<^item> \<open>loads (py_loads lib) s\<close>: \<open>json.loads(s)\<close>, \<open>None\<close> when it raises;
  \<^item> \<open>py_dumps v\<close>: \<open>json.dumps(v, ensure_ascii=False)\<close>;
  \<^item> \<open>py_strip s\<close>: \<open>s.strip()\<close>;
  \<^item> \<open>py_strptime s fmt\<close>: the day \<open>datetime.strptime(s, fmt)\<close> falls on, \<open>None\<close> when it
    raises;
  \<^item> \<open>py_strftime fmt d\<close>: the day \<open>d\<close> rendered with \<open>fmt\<close>.
  A calendar day is its ordinal number (\<open>date.toordinal()\<close>), an integer.
\<close>

text \<open>
  A JSON text is longer than the value it denotes is heavy: every node of the value and
  every character of its strings takes at least one character of the text. A parser is
  any function with this property; nothing else is known of \<open>json.loads\<close> here.
\<close>

fun jweight :: "json \<Rightarrow> nat" where
  "jweight (JStr s) = Suc (length s)"
| "jweight (JList vs) = Suc (sum_list (map jweight vs))"
| "jweight (JObj kvs) = Suc (sum_list (map (\<lambda>kv. jweight (snd kv)) kvs))"
| "jweight v = 1"

typedef parser = "{f :: ustr \<Rightarrow> json option. \<forall>s v. f s = Some v \<longrightarrow> jweight v \<le> length s}"
  morphisms loads Abs_parser
  by (rule exI [of _ "\<lambda>s. None"]) simp

setup_lifting type_definition_parser

record pylib =
  py_isdigit :: "nat \<Rightarrow> bool"
  py_lower :: "ustr \<Rightarrow> ustr"
  py_nfd :: "ustr \<Rightarrow> ustr"
  py_is_Mn :: "nat \<Rightarrow> bool"
  py_loads :: parser
  py_dumps :: "json \<Rightarrow> ustr"
  py_strip :: "ustr \<Rightarrow> ustr"
  py_strptime :: "ustr \<Rightarrow> ustr \<Rightarrow> int option"
  py_strftime :: "ustr \<Rightarrow> int \<Rightarrow> ustr"

subsection \<open>Files\<close>

text \<open>
  A directory is the list of its files, each a name and a text, in no particular order;
  names are distinct. Writing a file replaces its text or adds the file.
\<close>

type_synonym dir = "(ustr \<times> ustr) list"

text \<open>
  \<open>glob\<close> with a pattern \<open>pre*suf\<close>: the name starts with \<open>pre\<close> and what follows ends
  with \<open>suf\<close>.
\<close>

definition glob_match :: "ustr \<Rightarrow> ustr \<Rightarrow> ustr \<Rightarrow> bool" where
  "glob_match pre suf name = (prefix pre name \<and> suffix suf (drop (length pre) name))"

text \<open>Decimal digits of a number, and \<open>{n:03d}\<close>: at least three digits, padded with zeros.\<close>

fun dec :: "nat \<Rightarrow> ustr" where
  "dec n = (if n < 10 then [48 + n] else dec (n div 10) @ [48 + n mod 10])"

declare dec.simps [simp del]

definition format_03d :: "nat \<Rightarrow> ustr" where
  "format_03d n = replicate (3 - length (dec n)) 48 @ dec n"

definition Ymd :: "pylib \<Rightarrow> int \<Rightarrow> ustr" where
  "Ymd lib day = py_strftime lib (u ''%Y%m%d'') day"

definition part_name :: "pylib \<Rightarrow> int \<Rightarrow> ustr \<Rightarrow> nat \<Rightarrow> ustr" where
  "part_name lib day publicationavis pidx =
     Ymd lib day @ u ''_bodacc_update_part_'' @ publicationavis @ u ''_''
       @ format_03d pidx @ u ''.jsonl''"

definition ndjson :: "pylib \<Rightarrow> json list \<Rightarrow> ustr" where
  "ndjson lib records = concat (map (\<lambda>record. py_dumps lib record @ [10]) records)"

definition write_ndjson_part :: "pylib \<Rightarrow> dir \<Rightarrow> int \<Rightarrow> ustr \<Rightarrow> nat \<Rightarrow> json list \<Rightarrow> dir" where
  "write_ndjson_part lib tmp day publicationavis pidx records =
     AList.update (part_name lib day publicationavis pidx) (ndjson lib records) tmp"

definition is_day_part :: "pylib \<Rightarrow> int \<Rightarrow> ustr \<Rightarrow> bool" where
  "is_day_part lib day name =
     glob_match (Ymd lib day @ u ''_bodacc_update_part_'') (u ''.jsonl'') name"

text \<open>\<open>_cleanup_day_parts\<close>: every fragment of the day is unlinked.\<close>

definition cleanup_day_parts :: "pylib \<Rightarrow> dir \<Rightarrow> int \<Rightarrow> dir" where
  "cleanup_day_parts lib tmp day = filter (\<lambda>file. \<not> is_day_part lib day (fst file)) tmp"

definition daily_name :: "pylib \<Rightarrow> int \<Rightarrow> ustr" where
  "daily_name lib day = Ymd lib day @ u ''_bodacc_update.jsonl''"

text \<open>\<open>Path.touch()\<close>: an absent file is created empty, a present one keeps its text.\<close>

definition touch :: "ustr \<Rightarrow> dir \<Rightarrow> dir" where
  "touch name d = (if map_of d name = None then d @ [(name, [])] else d)"

text \<open>
  \<open>_merge_day_parts\<close>: the fragments of the day, sorted by file name, are written one
  after the other into the day's file and then unlinked; without any fragment the day's
  file is touched. The result is the temporary directory and the daily directory.
\<close>

definition merge_day_parts :: "pylib \<Rightarrow> dir \<Rightarrow> int \<Rightarrow> dir \<Rightarrow> dir \<times> dir" where
  "merge_day_parts lib tmp day daily =
     (let part_files = sort_key fst (filter (\<lambda>file. is_day_part lib day (fst file)) tmp) in
      if part_files = [] then (tmp, touch (daily_name lib day) daily)
      else (filter (\<lambda>file. fst file \<notin> fst ` set part_files) tmp,
            AList.update (daily_name lib day) (concat (map snd part_files)) daily))"

subsection \<open>\<open>_fetch_day\<close>\<close>

record config =
  per_page :: int
  max_retries :: int
  too_many_requests_timeout_sec :: int

text \<open>
  The query of one page request: \<open>refine\<close> on the day, \<open>where\<close> on the category and on
  \<open>numeroannonce > last_numero\<close>, \<open>order_by\<close> and \<open>limit\<close>.
\<close>

record params =
  refine_dateparution :: int
  where_publicationavis :: ustr
  where_numeroannonce_gt :: int
  order_by :: ustr
  limit :: int

text \<open>
  What the server answers to one request: status 429; a failure (a network error, another
  status that is not 2xx, a body that is not JSON); or a decoded JSON body.
\<close>

datatype response = RateLimited | Failed | Success json

text \<open>
  What the program does to the outside, in order: a request; a pause of so many seconds
  after a 429; a pause of \<open>backoff_base * 2 ^ attempt\<close> seconds after a failure (the
  event keeps \<open>attempt\<close>); giving up a category; the cleanup and the merge of a day.
\<close>

datatype event =
    Request params
  | SleepRateLimit int
  | SleepBackoff nat
  | Abandon
  | Cleanup int
  | Merge int

record fetch_state =
  all_records :: "json list"
  last_numero :: int
  page_idx :: nat
  tmp_dir :: dir
  log :: "event list"

text \<open>
  The server is a finite script of responses, read one per request. A function either
  returns, leaving the rest of the script, or is left waiting for the response to a
  request it has sent when the script is over.
\<close>

datatype 's outcome = Returned 's "response list" | Waiting 's

fun state_of :: "'s outcome \<Rightarrow> 's" where
  "state_of (Returned st rs) = st"
| "state_of (Waiting st) = st"

definition logged :: "event list \<Rightarrow> fetch_state \<Rightarrow> fetch_state" where
  "logged es st = st\<lparr>log := log st @ es\<rparr>"

definition make_params :: "config \<Rightarrow> int \<Rightarrow> ustr \<Rightarrow> int \<Rightarrow> params" where
  "make_params cfg date_value publicationavis numero =
     \<lparr>refine_dateparution = date_value, where_publicationavis = publicationavis,
      where_numeroannonce_gt = numero, order_by = u ''numeroannonce'', limit = per_page cfg\<rparr>"

text \<open>
  \<open>numero_values\<close>: the \<open>numeroannonce\<close> of every record that is a dictionary and has
  one that is not \<open>None\<close>.
\<close>

definition numero_values :: "json list \<Rightarrow> json list" where
  "numero_values records =
     List.map_filter
       (\<lambda>r. case r of
              JObj kvs \<Rightarrow>
                (case map_of kvs (u ''numeroannonce'') of
                   Some v \<Rightarrow> if v = JNull then None else Some v
                 | None \<Rightarrow> None)
            | _ \<Rightarrow> None)
       records"

text \<open>
  \<open>max(max(numero_values), last_numero)\<close>. Integers compare with integers (a boolean
  counts as 0 or 1); any other value raises \<open>TypeError\<close>, in the inner \<open>max\<close> or in the
  outer one, where it meets the integer \<open>last_numero\<close>.
\<close>

fun as_int :: "json \<Rightarrow> int option" where
  "as_int (JInt n) = Some n"
| "as_int (JBool b) = Some (if b then 1 else 0)"
| "as_int v = None"

fun py_max :: "int \<Rightarrow> json list \<Rightarrow> pyerr + int" where
  "py_max m [] = Inr m"
| "py_max m (v # vs) =
     (case as_int v of None \<Rightarrow> Inl TypeError | Some n \<Rightarrow> py_max (max m n) vs)"

definition advance_cursor :: "json list \<Rightarrow> int \<Rightarrow> pyerr + int" where
  "advance_cursor records numero =
     (if numero_values records = [] then Inr numero
      else py_max numero (numero_values records))"

text \<open>Lines 187 and 188: the page counter moves on and the page is written.\<close>

definition stage_page :: "pylib \<Rightarrow> int \<Rightarrow> ustr \<Rightarrow> json list \<Rightarrow> fetch_state \<Rightarrow> fetch_state" where
  "stage_page lib day cat records st =
     st\<lparr>page_idx := Suc (page_idx st),
        tmp_dir := write_ndjson_part lib (tmp_dir st) day cat (Suc (page_idx st)) records\<rparr>"

text \<open>
  The two loops of \<open>_fetch_day\<close>: \<open>while True\<close> builds \<open>params\<close> and runs
  \<open>for attempt in range(max_retries)\<close>. \<open>fetch_loop\<close> is at the head of the inner loop
  with the current \<open>params\<close> and \<open>attempt\<close>; leaving the inner loop by \<open>break\<close> enters it
  again with new \<open>params\<close> and \<open>attempt = 0\<close>. Every exception raised in the \<open>try\<close> block
  is caught by \<open>except Exception\<close>: the pause, then the next \<open>attempt\<close>.
\<close>

fun fetch_loop ::
  "pylib \<Rightarrow> config \<Rightarrow> int \<Rightarrow> ustr \<Rightarrow> params \<Rightarrow> nat \<Rightarrow> response list \<Rightarrow> fetch_state
     \<Rightarrow> fetch_state outcome"
where
  "fetch_loop lib cfg day cat ps attempt rs st =
     (if max_retries cfg \<le> int attempt then Returned (logged [Abandon] st) rs
      else
        (case rs of
           [] \<Rightarrow> Waiting (logged [Request ps] st)
         | r # rs' \<Rightarrow>
             (case r of
                RateLimited \<Rightarrow>
                  fetch_loop lib cfg day cat ps (Suc attempt) rs'
                    (logged [Request ps, SleepRateLimit (too_many_requests_timeout_sec cfg)] st)
              | Failed \<Rightarrow>
                  fetch_loop lib cfg day cat ps (Suc attempt) rs'
                    (logged [Request ps, SleepBackoff attempt] st)
              | Success payload \<Rightarrow>
                  (case extract_records payload of
                     Inl e \<Rightarrow>
                       fetch_loop lib cfg day cat ps (Suc attempt) rs'
                         (logged [Request ps, SleepBackoff attempt] st)
                   | Inr records \<Rightarrow>
                       (let st1 = (logged [Request ps] st)
                                    \<lparr>all_records := all_records st @ records\<rparr> in
                        if records = [] then Returned st1 rs'
                        else
                          (let st2 = stage_page lib day cat records st1 in
                           case advance_cursor records (last_numero st2) of
                             Inl e \<Rightarrow>
                               fetch_loop lib cfg day cat ps (Suc attempt) rs'
                                 (logged [SleepBackoff attempt] st2)
                           | Inr n \<Rightarrow>
                               (let st3 = st2\<lparr>last_numero := n\<rparr> in
                                if int (length records) < per_page cfg then Returned st3 rs'
                                else fetch_loop lib cfg day cat
                                       (make_params cfg day cat (last_numero st3)) 0 rs' st3)))))))"

declare fetch_loop.simps [simp del]

text \<open>
  \<open>_fetch_day\<close>, started with the temporary directory and the log as they are.
\<close>

definition fetch_day ::
  "pylib \<Rightarrow> config \<Rightarrow> int \<Rightarrow> ustr \<Rightarrow> response list \<Rightarrow> dir \<Rightarrow> event list \<Rightarrow> fetch_state outcome"
where
  "fetch_day lib cfg day cat rs tmp lg =
     fetch_loop lib cfg day cat (make_params cfg day cat 0) 0 rs
       \<lparr>all_records = [], last_numero = 0, page_idx = 0, tmp_dir = tmp, log = lg\<rparr>"

subsection \<open>The loop over the days in \<open>main\<close>\<close>

record world =
  w_tmp :: dir
  w_daily :: dir
  w_log :: "event list"

definition PUBLICATION_TYPES :: "ustr list" where
  "PUBLICATION_TYPES = [u ''A'', u ''B'', u ''C'']"

definition date_range :: "int \<Rightarrow> int \<Rightarrow> int list" where
  "date_range start end = [start..end]"

text \<open>\<open>for publicationavis in PUBLICATION_TYPES\<close>.\<close>

fun fetch_types ::
  "pylib \<Rightarrow> config \<Rightarrow> int \<Rightarrow> ustr list \<Rightarrow> response list \<Rightarrow> world \<Rightarrow> world outcome"
where
  "fetch_types lib cfg day [] rs w = Returned w rs"
| "fetch_types lib cfg day (cat # cats) rs w =
     (case fetch_day lib cfg day cat rs (w_tmp w) (w_log w) of
        Waiting st \<Rightarrow> Waiting (w\<lparr>w_tmp := tmp_dir st, w_log := log st\<rparr>)
      | Returned st rs' \<Rightarrow>
          fetch_types lib cfg day cats rs' (w\<lparr>w_tmp := tmp_dir st, w_log := log st\<rparr>))"

text \<open>The body of \<open>for day in _date_range(start_date, end_date)\<close>.\<close>

definition process_day :: "pylib \<Rightarrow> config \<Rightarrow> int \<Rightarrow> response list \<Rightarrow> world \<Rightarrow> world outcome" where
  "process_day lib cfg day rs w =
     (if map_of (w_daily w) (daily_name lib day) \<noteq> None then Returned w rs
      else
        (let w1 = w\<lparr>w_tmp := cleanup_day_parts lib (w_tmp w) day,
                    w_log := w_log w @ [Cleanup day]\<rparr> in
         case fetch_types lib cfg day PUBLICATION_TYPES rs w1 of
           Waiting w2 \<Rightarrow> Waiting w2
         | Returned w2 rs' \<Rightarrow>
             (let (tmp', daily') = merge_day_parts lib (w_tmp w2) day (w_daily w2) in
              Returned (w2\<lparr>w_tmp := tmp', w_daily := daily', w_log := w_log w2 @ [Merge day]\<rparr>)
                rs')))"

fun run_days :: "pylib \<Rightarrow> config \<Rightarrow> int list \<Rightarrow> response list \<Rightarrow> world \<Rightarrow> world outcome" where
  "run_days lib cfg [] rs w = Returned w rs"
| "run_days lib cfg (day # days) rs w =
     (case process_day lib cfg day rs w of
        Waiting w' \<Rightarrow> Waiting w'
      | Returned w' rs' \<Rightarrow> run_days lib cfg days rs' w')"

subsection \<open>Traces\<close>

text \<open>The requests of a log, in order.\<close>

fun request_of :: "event \<Rightarrow> params option" where
  "request_of (Request p) = Some p"
| "request_of e = None"

definition requests :: "event list \<Rightarrow> params list" where
  "requests es = List.map_filter request_of es"

definition received :: "json list \<Rightarrow> params \<Rightarrow> fetch_state \<Rightarrow> fetch_state" where
  "received records ps st = (logged [Request ps] st)\<lparr>all_records := all_records st @ records\<rparr>"

fun fetch_event :: "event \<Rightarrow> bool" where
  "fetch_event (Cleanup d) = False"
| "fetch_event (Merge d) = False"
| "fetch_event e = True"

definition trace_ok :: "config \<Rightarrow> int \<Rightarrow> ustr \<Rightarrow> params \<Rightarrow> event list \<Rightarrow> bool" where
  "trace_ok cfg day cat ps es \<longleftrightarrow>
     (\<forall>e\<in>set es. fetch_event e)
   \<and> (\<forall>p\<in>set (requests es).
        (p = ps \<or> (\<exists>n. p = make_params cfg day cat n))
        \<and> where_numeroannonce_gt ps \<le> where_numeroannonce_gt p)
   \<and> sorted (map where_numeroannonce_gt (requests es))
   \<and> (requests es \<noteq> [] \<longrightarrow> hd (requests es) = ps)"

section \<open>The filter: \<open>03_filter_BODACC_by_day.py\<close>\<close>

type_synonym pydict = "(ustr \<times> json) list"

text \<open>\<open>d.get(k)\<close>: the value under \<open>k\<close>, \<open>None\<close> without it.\<close>

definition dict_get :: "pydict \<Rightarrow> ustr \<Rightarrow> json" where
  "dict_get d k = (case map_of d k of Some v \<Rightarrow> v | None \<Rightarrow> JNull)"

subsection \<open>\<open>_clean_registre_values\<close> and \<open>_matched_sirens\<close>\<close>

fun clean_registre_loop :: "pylib \<Rightarrow> ustr list \<Rightarrow> json list \<Rightarrow> ustr list" where
  "clean_registre_loop lib cleaned [] = cleaned"
| "clean_registre_loop lib cleaned (value # values) =
     (case value of
        JStr s \<Rightarrow>
          (let digits_only = filter (py_isdigit lib) s in
           if digits_only \<noteq> [] then clean_registre_loop lib (cleaned @ [digits_only]) values
           else clean_registre_loop lib cleaned values)
      | _ \<Rightarrow> clean_registre_loop lib cleaned values)"

definition clean_registre_values :: "pylib \<Rightarrow> json list \<Rightarrow> ustr list" where
  "clean_registre_values lib values = clean_registre_loop lib [] values"

definition matched_sirens :: "pylib \<Rightarrow> pydict \<Rightarrow> ustr set \<Rightarrow> ustr list" where
  "matched_sirens lib record sirens =
     (let registre_values = dict_get record (u ''registre'') in
      if \<not> truthy registre_values then []
      else
        (case registre_values of
           JStr s \<Rightarrow> filter (\<lambda>value. value \<in> sirens) (clean_registre_values lib [JStr s])
         | JList vs \<Rightarrow> filter (\<lambda>value. value \<in> sirens) (clean_registre_values lib vs)
         | _ \<Rightarrow> []))"

text \<open>
  The identifier candidates of a record, in the words of the claim: the \<open>registre\<close> field
  when it is a string, its strings when it is a list, nothing otherwise.
\<close>

definition registre_candidates :: "pydict \<Rightarrow> ustr list" where
  "registre_candidates record =
     (case map_of record (u ''registre'') of
        Some (JStr s) \<Rightarrow> [s]
      | Some (JList vs) \<Rightarrow> List.map_filter (\<lambda>v. case v of JStr s \<Rightarrow> Some s | _ \<Rightarrow> None) vs
      | _ \<Rightarrow> [])"

subsection \<open>\<open>_normalize_text\<close>, \<open>_deep_collect_text\<close>, \<open>_flag_keywords\<close>, \<open>_should_tag_topage\<close>\<close>

definition normalize_text :: "pylib \<Rightarrow> ustr \<Rightarrow> ustr" where
  "normalize_text lib text = filter (\<lambda>c. \<not> py_is_Mn lib c) (py_nfd lib (py_lower lib text))"

lemma jweight_pos: "0 < jweight v"
  by (cases v) simp_all

lemma loads_lighter: "loads p s = Some v \<Longrightarrow> jweight v \<le> length s"
  using loads [of p] by simp

text \<open>
  \<open>_deep_collect_text\<close>, and the loop \<open>for value in ...: texts.extend(_deep_collect_text(value))\<close>
  with the list \<open>texts\<close> it extends.
\<close>

function deep_collect_text :: "pylib \<Rightarrow> json \<Rightarrow> ustr list"
  and extend_texts :: "pylib \<Rightarrow> ustr list \<Rightarrow> json list \<Rightarrow> ustr list"
where
  "deep_collect_text lib (JObj kvs) = extend_texts lib [] (map snd kvs)"
| "deep_collect_text lib (JList vs) = extend_texts lib [] vs"
| "deep_collect_text lib (JStr s) =
     (case loads (py_loads lib) s of
        Some parsed \<Rightarrow> [s] @ deep_collect_text lib parsed
      | None \<Rightarrow> [s])"
| "deep_collect_text lib JNull = []"
| "deep_collect_text lib (JBool b) = []"
| "deep_collect_text lib (JInt n) = []"
| "extend_texts lib texts [] = texts"
| "extend_texts lib texts (value # values) =
     extend_texts lib (texts @ deep_collect_text lib value) values"
  by pat_completeness auto
termination
proof (relation "measure (\<lambda>x. case x of
          Inl (lib, v) \<Rightarrow> 2 * jweight v
        | Inr (lib, texts, vs) \<Rightarrow> 2 * sum_list (map jweight vs) + 1)")
  show "wf (measure (\<lambda>x. case x of
          Inl (lib, v) \<Rightarrow> 2 * jweight v
        | Inr (lib, texts, vs) \<Rightarrow> 2 * sum_list (map jweight vs) + 1))"
    by simp
qed (auto simp: comp_def jweight_pos dest: loads_lighter)

definition flag_keywords :: "pylib \<Rightarrow> ustr \<Rightarrow> ustr list \<Rightarrow> bool" where
  "flag_keywords lib text keywords =
     (if text = [] then False
      else (let content = normalize_text lib text in list_ex (\<lambda>keyword. str_in keyword content) keywords))"

definition TEXT_COLUMNS_CANDIDATES :: "ustr list" where
  "TEXT_COLUMNS_CANDIDATES = [u ''texte'', u ''text'', u ''objet'', u ''description'', u ''resume'']"

definition tag_fields :: "ustr list" where
  "tag_fields = TEXT_COLUMNS_CANDIDATES
     @ [u ''familleavis_lib'', u ''typeavis_lib'', u ''jugement'', u ''modificationsgenerales'',
        u ''divers'']"

fun text_parts_loop :: "pylib \<Rightarrow> pydict \<Rightarrow> ustr list \<Rightarrow> ustr list \<Rightarrow> ustr list" where
  "text_parts_loop lib record text_parts [] = text_parts"
| "text_parts_loop lib record text_parts (field # rest) =
     (case map_of record field of
        Some v \<Rightarrow> text_parts_loop lib record (text_parts @ deep_collect_text lib v) rest
      | None \<Rightarrow> text_parts_loop lib record text_parts rest)"

definition should_tag_topage :: "pylib \<Rightarrow> pydict \<Rightarrow> ustr list \<Rightarrow> bool" where
  "should_tag_topage lib record keywords =
     (if keywords = [] then False
      else flag_keywords lib (join (u '' '') (text_parts_loop lib record [] tag_fields)) keywords)"

subsection \<open>\<open>_parse_day\<close>, \<open>_existing_days\<close>, \<open>_write_day_file\<close>\<close>

definition parse_day :: "pylib \<Rightarrow> ustr \<Rightarrow> ustr option" where
  "parse_day lib value =
     (case py_strptime lib value (u ''%Y-%m-%d'') of
        Some d \<Rightarrow> Some (py_strftime lib (u ''%Y%m%d'') d)
      | None \<Rightarrow>
        (case py_strptime lib value (u ''%d/%m/%Y'') of
           Some d \<Rightarrow> Some (py_strftime lib (u ''%Y%m%d'') d)
         | None \<Rightarrow>
           (case py_strptime lib value (u ''%Y%m%d'') of
              Some d \<Rightarrow> Some (py_strftime lib (u ''%Y%m%d'') d)
            | None \<Rightarrow> None)))"

text \<open>
  \<open>Path.stem\<close>: the name without its last suffix, that is up to its last dot when that
  dot is neither the first nor the last character.
\<close>

definition rfind_dot :: "ustr \<Rightarrow> nat option" where
  "rfind_dot name =
     (case filter (\<lambda>i. name ! i = 46) (rev [0..<length name]) of i # rest \<Rightarrow> Some i | [] \<Rightarrow> None)"

definition py_stem :: "ustr \<Rightarrow> ustr" where
  "py_stem name =
     (case rfind_dot name of
        Some i \<Rightarrow> if 0 < i \<and> i < length name - 1 then take i name else name
      | None \<Rightarrow> name)"

definition filtered_name :: "ustr \<Rightarrow> ustr" where
  "filtered_name day_str = day_str @ u ''_bodacc_filtered.jsonl''"

definition existing_days :: "dir \<Rightarrow> ustr set" where
  "existing_days output_dir =
     set (map (\<lambda>file. take 8 (py_stem (fst file)))
            (filter (\<lambda>file. suffix (u ''_bodacc_filtered.jsonl'') (fst file)
                           \<and> 8 \<le> length (py_stem (fst file))) output_dir))"

definition write_day_file :: "ustr \<Rightarrow> ustr list \<Rightarrow> dir \<Rightarrow> dir" where
  "write_day_file day_str records output_dir =
     (if map_of output_dir (filtered_name day_str) \<noteq> None then output_dir
      else output_dir
             @ [(filtered_name day_str, if records = [] then [] else join [10] records @ [10])])"

subsection \<open>\<open>_load_bodacc_jsonl\<close>\<close>

definition load_bodacc_jsonl :: "pylib \<Rightarrow> ustr list \<Rightarrow> json list" where
  "load_bodacc_jsonl lib lines =
     List.map_filter
       (\<lambda>line. let line = py_strip lib line in
               if line = [] then None else loads (py_loads lib) line)
       lines"

subsection \<open>\<open>_filter_records\<close>\<close>

text \<open>
  The registry: for a SIREN, the dictionary of its three attributes.
\<close>

type_synonym registry = "ustr \<Rightarrow> (ustr \<times> ustr) list option"

text \<open>\<open>info.get(k)\<close> as a JSON value.\<close>

definition info_get :: "(ustr \<times> ustr) list \<Rightarrow> ustr \<Rightarrow> json" where
  "info_get info k = (case map_of info k of Some v \<Rightarrow> JStr v | None \<Rightarrow> JNull)"

text \<open>
  The loop \<open>for siren in matches\<close>: the first SIREN with a non-empty entry in the registry
  gives the three attributes.
\<close>

fun enrich :: "registry \<Rightarrow> ustr list \<Rightarrow> pydict \<Rightarrow> pydict" where
  "enrich sirens_info [] record = record"
| "enrich sirens_info (siren # matches) record =
     (case sirens_info siren of
        Some info \<Rightarrow>
          if info \<noteq> [] then
            AList.update (u ''MATRICULE_PICRIS_AGRI'') (info_get info (u ''MATRICULE_PICRIS_AGRI''))
              (AList.update (u ''MATRICULE_PICRIS_CPCEA'') (info_get info (u ''MATRICULE_PICRIS_CPCEA''))
                 (AList.update (u ''MATRICULE_PICRIS_CCPMA'')
                    (info_get info (u ''MATRICULE_PICRIS_CCPMA'')) record))
          else enrich sirens_info matches record
      | None \<Rightarrow> enrich sirens_info matches record)"

text \<open>
  The state of the loop over the records of one file: \<open>kept_per_day\<close>, a dictionary of
  lists with the empty list as default, and \<open>seen_per_day\<close>, a set, kept as the list of
  its elements in the order they were first added.
\<close>

record filter_state =
  kept_per_day :: "ustr \<Rightarrow> ustr list"
  seen_per_day :: "ustr list"

text \<open>
  The body of \<open>for record in _load_bodacc_jsonl(input_file)\<close>. A record that is not a
  dictionary has no \<open>get\<close>: \<open>AttributeError\<close>.
\<close>

definition filter_record ::
  "pylib \<Rightarrow> ustr set \<Rightarrow> ustr list \<Rightarrow> registry \<Rightarrow> ustr set \<Rightarrow> json \<Rightarrow> filter_state
     \<Rightarrow> pyerr + filter_state"
where
  "filter_record lib sirens keywords sirens_info existing record st =
     (case record of
        JObj pairs \<Rightarrow>
          (case dict_get pairs (u ''dateparution'') of
             JStr date_parution \<Rightarrow>
               (case parse_day lib date_parution of
                  None \<Rightarrow> Inr st
                | Some day_str \<Rightarrow>
                    if day_str = [] then Inr st
                    else if day_str \<in> existing then Inr st
                    else
                      (let st1 = st\<lparr>seen_per_day := List.insert day_str (seen_per_day st)\<rparr>;
                           matches = matched_sirens lib pairs sirens in
                       if matches = [] then Inr st1
                       else if \<not> should_tag_topage lib pairs keywords then Inr st1
                       else
                         (let tagged = AList.update (u ''topage_DDJC'') (JStr (u ''oui'')) pairs;
                              enriched = enrich sirens_info matches tagged in
                          Inr (st1\<lparr>kept_per_day :=
                                     (kept_per_day st1)
                                       (day_str := kept_per_day st1 day_str
                                                     @ [py_dumps lib (JObj enriched)])\<rparr>))))
           | _ \<Rightarrow> Inr st)
      | _ \<Rightarrow> Inl AttributeError)"

fun filter_loop ::
  "pylib \<Rightarrow> ustr set \<Rightarrow> ustr list \<Rightarrow> registry \<Rightarrow> ustr set \<Rightarrow> json list \<Rightarrow> filter_state
     \<Rightarrow> pyerr + filter_state"
where
  "filter_loop lib sirens keywords sirens_info existing [] st = Inr st"
| "filter_loop lib sirens keywords sirens_info existing (record # records) st =
     (case filter_record lib sirens keywords sirens_info existing record st of
        Inl e \<Rightarrow> Inl e
      | Inr st' \<Rightarrow> filter_loop lib sirens keywords sirens_info existing records st')"

text \<open>\<open>for day_str in sorted(seen_per_day)\<close>: the day's file is written and the day is added to \<open>existing\<close>.\<close>

fun write_days :: "(ustr \<Rightarrow> ustr list) \<Rightarrow> ustr list \<Rightarrow> ustr set \<times> dir \<Rightarrow> ustr set \<times> dir" where
  "write_days kept [] (existing, target_dir) = (existing, target_dir)"
| "write_days kept (day_str # days) (existing, target_dir) =
     write_days kept days (insert day_str existing, write_day_file day_str (kept day_str) target_dir)"

text \<open>
  The day in the name of an input file: the part of the stem before the first underscore,
  when it is eight digits.
\<close>

definition day_from_name :: "pylib \<Rightarrow> ustr \<Rightarrow> ustr option" where
  "day_from_name lib name =
     (let first = takeWhile (\<lambda>c. c \<noteq> 95) (py_stem name) in
      if first \<noteq> [] \<and> list_all (py_isdigit lib) first \<and> length first = 8 then Some first
      else None)"

text \<open>
  The body of \<open>for input_file in input_files\<close>; an input file is its name and its lines.
\<close>

definition filter_file ::
  "pylib \<Rightarrow> ustr set \<Rightarrow> ustr list \<Rightarrow> registry \<Rightarrow> ustr \<times> ustr list \<Rightarrow> ustr set \<times> dir
     \<Rightarrow> ustr set \<times> dir"
where
  "filter_file lib sirens keywords sirens_info input_file state =
     (let target_day = day_from_name lib (fst input_file) in
      if (case target_day of Some day \<Rightarrow> day \<noteq> [] \<and> day \<in> fst state | None \<Rightarrow> False) then state
      else
        (case filter_loop lib sirens keywords sirens_info (fst state)
                (load_bodacc_jsonl lib (snd input_file))
                \<lparr>kept_per_day = (\<lambda>day. []), seen_per_day = []\<rparr> of
           Inl e \<Rightarrow> state
         | Inr st \<Rightarrow> write_days (kept_per_day st) (sort (seen_per_day st)) state))"

definition filter_records ::
  "pylib \<Rightarrow> (ustr \<times> ustr list) list \<Rightarrow> ustr set \<Rightarrow> dir \<Rightarrow> ustr list \<Rightarrow> registry \<Rightarrow> dir"
where
  "filter_records lib input_files sirens target_dir keywords sirens_info =
     (if input_files = [] then target_dir
      else snd (fold (filter_file lib sirens keywords sirens_info) input_files
                  (existing_days target_dir, target_dir)))"

section \<open>Examples\<close>

text \<open>
  A library for the examples: Python's \<open>isdigit\<close>, \<open>lower\<close>, \<open>isspace\<close> and canonical
  decomposition on the code points below 256 (the combining marks U+0300 to U+036F are
  all of category \<open>Mn\<close>), \<open>json.dumps\<close> on values whose strings hold no control character,
  \<open>json.loads\<close> on the texts of \<open>example_documents\<close>, and the calendar on three days of
  March 2024.
\<close>

definition escape :: "ustr \<Rightarrow> ustr" where
  "escape s = concat (map (\<lambda>c. if c = 34 \<or> c = 92 then [92, c] else [c]) s)"

fun example_dumps :: "json \<Rightarrow> ustr" where
  "example_dumps JNull = u ''null''"
| "example_dumps (JBool b) = (if b then u ''true'' else u ''false'')"
| "example_dumps (JInt n) = (if n < 0 then 45 # dec (nat (- n)) else dec (nat n))"
| "example_dumps (JStr s) = [34] @ escape s @ [34]"
| "example_dumps (JList vs) = [91] @ join (u '', '') (map example_dumps vs) @ [93]"
| "example_dumps (JObj kvs) =
     [123]
       @ join (u '', '')
           (map (\<lambda>kv. [34] @ escape (fst kv) @ [34] @ u '': '' @ example_dumps (snd kv)) kvs)
       @ [125]"

text \<open>
  Three announcements: the first is of a known SIREN and speaks of a \<open>redressement
  judiciaire\<close>; the second is of an unknown SIREN; the third, published a day later, is
  of the known SIREN, with a \<open>jugement\<close> field that is itself a JSON text.
\<close>

definition example_jugement :: json where
  "example_jugement = JObj [(u ''nature'', JStr (u ''Liquidation Judiciaire''))]"

definition example_record_a :: "(ustr \<times> json) list" where
  "example_record_a =
     [(u ''numeroannonce'', JInt 4), (u ''dateparution'', JStr (u ''2024-03-05'')),
      (u ''registre'', JStr (u ''123 456 789'')),
      (u ''typeavis_lib'', JStr (u ''Redressement Judiciaire''))]"

definition example_record_b :: "(ustr \<times> json) list" where
  "example_record_b =
     [(u ''numeroannonce'', JInt 7), (u ''dateparution'', JStr (u ''2024-03-05'')),
      (u ''registre'', JStr (u ''999999999'')),
      (u ''typeavis_lib'', JStr (u ''Redressement Judiciaire''))]"

definition example_record_c :: "(ustr \<times> json) list" where
  "example_record_c =
     [(u ''numeroannonce'', JInt 9), (u ''dateparution'', JStr (u ''2024-03-06'')),
      (u ''registre'', JList [JInt 0, JStr (u ''SIREN:123456789'')]),
      (u ''jugement'', JStr (example_dumps example_jugement))]"

definition example_documents :: "json list" where
  "example_documents =
     [JObj example_record_a, JObj example_record_b, JObj example_record_c, example_jugement]"

definition example_registry :: "ustr \<Rightarrow> (ustr \<times> ustr) list option" where
  "example_registry siren =
     (if siren = u ''123456789''
      then Some [(u ''MATRICULE_PICRIS_CCPMA'', u ''M1''), (u ''MATRICULE_PICRIS_CPCEA'', u ''M2''),
                 (u ''MATRICULE_PICRIS_AGRI'', u ''M3'')]
      else None)"

lift_definition example_loads :: parser is
  "\<lambda>s. case map_of (map (\<lambda>v. (example_dumps v, v)) example_documents) s of
         Some v \<Rightarrow> if jweight v \<le> length s then Some v else None
       | None \<Rightarrow> None"
  by (auto split: option.splits if_splits)

definition latin1_isdigit :: "nat \<Rightarrow> bool" where
  "latin1_isdigit c \<longleftrightarrow> (48 \<le> c \<and> c \<le> 57) \<or> c = 178 \<or> c = 179 \<or> c = 185"

definition latin1_lower :: "nat \<Rightarrow> nat" where
  "latin1_lower c = (if (65 \<le> c \<and> c \<le> 90) \<or> (192 \<le> c \<and> c \<le> 222 \<and> c \<noteq> 215) then c + 32 else c)"

definition latin1_decomposition :: "(nat \<times> nat list) list" where
  "latin1_decomposition =
     [(192, [65, 768]), (193, [65, 769]), (194, [65, 770]), (195, [65, 771]), (196, [65, 776]),
      (197, [65, 778]), (199, [67, 807]), (200, [69, 768]), (201, [69, 769]), (202, [69, 770]),
      (203, [69, 776]), (204, [73, 768]), (205, [73, 769]), (206, [73, 770]), (207, [73, 776]),
      (209, [78, 771]), (210, [79, 768]), (211, [79, 769]), (212, [79, 770]), (213, [79, 771]),
      (214, [79, 776]), (217, [85, 768]), (218, [85, 769]), (219, [85, 770]), (220, [85, 776]),
      (221, [89, 769]), (224, [97, 768]), (225, [97, 769]), (226, [97, 770]), (227, [97, 771]),
      (228, [97, 776]), (229, [97, 778]), (231, [99, 807]), (232, [101, 768]), (233, [101, 769]),
      (234, [101, 770]), (235, [101, 776]), (236, [105, 768]), (237, [105, 769]),
      (238, [105, 770]), (239, [105, 776]), (241, [110, 771]), (242, [111, 768]),
      (243, [111, 769]), (244, [111, 770]), (245, [111, 771]), (246, [111, 776]),
      (249, [117, 768]), (250, [117, 769]), (251, [117, 770]), (252, [117, 776]),
      (253, [121, 769]), (255, [121, 776])]"

definition latin1_nfd :: "nat \<Rightarrow> nat list" where
  "latin1_nfd c = (case map_of latin1_decomposition c of Some d \<Rightarrow> d | None \<Rightarrow> [c])"

definition latin1_isspace :: "nat \<Rightarrow> bool" where
  "latin1_isspace c \<longleftrightarrow> (9 \<le> c \<and> c \<le> 13) \<or> (28 \<le> c \<and> c \<le> 32) \<or> c = 133 \<or> c = 160"

definition example_calendar :: "((ustr \<times> ustr) \<times> int) list" where
  "example_calendar =
     [((u ''2024-03-04'', u ''%Y-%m-%d''), 738949), ((u ''2024-03-05'', u ''%Y-%m-%d''), 738950),
      ((u ''2024-03-06'', u ''%Y-%m-%d''), 738951),
      ((u ''04/03/2024'', u ''%d/%m/%Y''), 738949), ((u ''05/03/2024'', u ''%d/%m/%Y''), 738950),
      ((u ''06/03/2024'', u ''%d/%m/%Y''), 738951),
      ((u ''20240304'', u ''%Y%m%d''), 738949), ((u ''20240305'', u ''%Y%m%d''), 738950),
      ((u ''20240306'', u ''%Y%m%d''), 738951)]"

definition example_strftime :: "ustr \<Rightarrow> int \<Rightarrow> ustr" where
  "example_strftime fmt d =
     (case filter (\<lambda>e. snd (fst e) = fmt \<and> snd e = d) example_calendar of
        e # es \<Rightarrow> fst (fst e)
      | [] \<Rightarrow> [])"

definition example_lib :: pylib where
  "example_lib =
     \<lparr>py_isdigit = latin1_isdigit,
      py_lower = map latin1_lower,
      py_nfd = (\<lambda>s. concat (map latin1_nfd s)),
      py_is_Mn = (\<lambda>c. 768 \<le> c \<and> c \<le> 879),
      py_loads = example_loads,
      py_dumps = example_dumps,
      py_strip = (\<lambda>s. rev (dropWhile latin1_isspace (rev (dropWhile latin1_isspace s)))),
      py_strptime = (\<lambda>s fmt. map_of example_calendar (s, fmt)),
      py_strftime = example_strftime\<rparr>"

definition example_cfg :: config where
  "example_cfg = \<lparr>per_page = 2, max_retries = 2, too_many_requests_timeout_sec = 300\<rparr>"

definition announcement :: "int \<Rightarrow> json" where
  "announcement n = JObj [(u ''numeroannonce'', JInt n)]"

definition example_page :: "int list \<Rightarrow> json" where
  "example_page ns = JObj [(u ''results'', JList (map announcement ns))]"

section \<open>Properties of \<open>_extract_records\<close>\<close>

lemma u_eq_iff [simp]: "u s = u t \<longleftrightarrow> s = t"
  by (simp add: u_def inj_def)

lemma results_loop_acc:
  "results_loop cleaned items = cleaned @ List.map_filter unwrap_item items"
  by (induction items arbitrary: cleaned)
    (auto simp: unwrap_item_def split: json.splits option.splits)

lemma key_with_dict:
  "key_with is_list k (JObj kvs) =
     Inr (case map_of kvs k of Some (JList vs) \<Rightarrow> Some (JList vs) | _ \<Rightarrow> None)"
  by (auto simp: key_with_def split: option.splits json.splits bool.splits)

text \<open>
  C10. On every dictionary payload \<open>_extract_records\<close> returns a list and raises nothing.
  When the payload has a \<open>results\<close> list, the result is built from that list alone
  (whatever \<open>records\<close> holds): each dictionary item gives its inner \<open>record\<close>
  dictionary, else its inner \<open>fields\<close> dictionary, else itself, and the other items are
  dropped. Only when \<open>results\<close> is absent or is not a list is a \<open>records\<close> list returned
  as it is. A payload with neither gives the empty list, and so do the empty dictionary
  and \<open>None\<close>.
\<close>

theorem extract_records_precedence:
  "extract_records (JObj kvs) =
     Inr (case results_of kvs of
            Some items \<Rightarrow> List.map_filter unwrap_item items
          | None \<Rightarrow> (case records_of kvs of Some rs \<Rightarrow> rs | None \<Rightarrow> []))
   \<and> extract_records (JObj []) = Inr []
   \<and> extract_records JNull = Inr []"
proof -
  have empty: "extract_records (JObj []) = Inr []" "extract_records JNull = Inr []"
    by (simp_all add: extract_records_def)
  have "extract_records (JObj kvs) =
     Inr (case results_of kvs of
            Some items \<Rightarrow> List.map_filter unwrap_item items
          | None \<Rightarrow> (case records_of kvs of Some rs \<Rightarrow> rs | None \<Rightarrow> []))"
  proof (cases "kvs = []")
    case True
    then show ?thesis
      by (simp add: extract_records_def results_of_def records_of_def)
  next
    case False
    then show ?thesis
      by (simp add: extract_records_def key_with_dict results_of_def records_of_def
          results_loop_acc split: option.splits json.splits)
  qed
  with empty show ?thesis by simp
qed

text \<open>
  A payload holding both keys: the two \<open>results\<close> wrappers are unwrapped, the number
  among them is dropped, and the \<open>records\<close> list is ignored.
\<close>

theorem extract_records_precedence_witness:
  "extract_records
     (JObj [(u ''records'', JList [JObj [(u ''id'', JInt 9)]]),
            (u ''results'',
               JList [JObj [(u ''record'', JObj [(u ''id'', JInt 1)])],
                      JInt 7,
                      JObj [(u ''fields'', JObj [(u ''id'', JInt 2)])],
                      JObj [(u ''id'', JInt 3)]])])
   = Inr [JObj [(u ''id'', JInt 1)], JObj [(u ''id'', JInt 2)], JObj [(u ''id'', JInt 3)]]"
  using extract_records_precedence
    [of "[(u ''records'', JList [JObj [(u ''id'', JInt 9)]]),
          (u ''results'',
             JList [JObj [(u ''record'', JObj [(u ''id'', JInt 1)])],
                    JInt 7,
                    JObj [(u ''fields'', JObj [(u ''id'', JInt 2)])],
                    JObj [(u ''id'', JInt 3)]])]"]
  by (simp add: results_of_def records_of_def unwrap_item_def)

section \<open>Properties of \<open>_fetch_day\<close>\<close>

lemma logged_logged [simp]: "logged es (logged fs st) = logged (fs @ es) st"
  by (simp add: logged_def)

lemma logged_Nil [simp]: "logged [] st = st"
  by (simp add: logged_def)

lemma log_logged [simp]: "log (logged es st) = log st @ es"
  by (simp add: logged_def)

lemma fetch_loop_abandon:
  "max_retries cfg \<le> int attempt \<Longrightarrow>
   fetch_loop lib cfg day cat ps attempt rs st = Returned (logged [Abandon] st) rs"
  by (simp add: fetch_loop.simps)

lemma fetch_loop_waiting:
  "int attempt < max_retries cfg \<Longrightarrow>
   fetch_loop lib cfg day cat ps attempt [] st = Waiting (logged [Request ps] st)"
  by (simp add: fetch_loop.simps)

lemma fetch_loop_rate_limited:
  "int attempt < max_retries cfg \<Longrightarrow>
   fetch_loop lib cfg day cat ps attempt (RateLimited # rs) st =
   fetch_loop lib cfg day cat ps (Suc attempt) rs
     (logged [Request ps, SleepRateLimit (too_many_requests_timeout_sec cfg)] st)"
  by (subst fetch_loop.simps) simp

lemma fetch_loop_failed:
  "int attempt < max_retries cfg \<Longrightarrow>
   fetch_loop lib cfg day cat ps attempt (Failed # rs) st =
   fetch_loop lib cfg day cat ps (Suc attempt) rs
     (logged [Request ps, SleepBackoff attempt] st)"
  by (subst fetch_loop.simps) simp

lemma fetch_loop_malformed:
  "int attempt < max_retries cfg \<Longrightarrow> extract_records payload = Inl e \<Longrightarrow>
   fetch_loop lib cfg day cat ps attempt (Success payload # rs) st =
   fetch_loop lib cfg day cat ps (Suc attempt) rs
     (logged [Request ps, SleepBackoff attempt] st)"
  by (subst fetch_loop.simps) simp

lemma fetch_loop_empty_page:
  "int attempt < max_retries cfg \<Longrightarrow> extract_records payload = Inr [] \<Longrightarrow>
   fetch_loop lib cfg day cat ps attempt (Success payload # rs) st =
   Returned (logged [Request ps] st) rs"
  by (subst fetch_loop.simps) (simp add: logged_def)

lemma fetch_loop_bad_numero:
  "int attempt < max_retries cfg \<Longrightarrow> extract_records payload = Inr records \<Longrightarrow> records \<noteq> [] \<Longrightarrow>
   advance_cursor records (last_numero st) = Inl e \<Longrightarrow>
   fetch_loop lib cfg day cat ps attempt (Success payload # rs) st =
   fetch_loop lib cfg day cat ps (Suc attempt) rs
     (logged [SleepBackoff attempt] (stage_page lib day cat records (received records ps st)))"
  by (subst fetch_loop.simps) (simp add: received_def stage_page_def logged_def)

lemma fetch_loop_short_page:
  "int attempt < max_retries cfg \<Longrightarrow> extract_records payload = Inr records \<Longrightarrow> records \<noteq> [] \<Longrightarrow>
   advance_cursor records (last_numero st) = Inr n \<Longrightarrow> int (length records) < per_page cfg \<Longrightarrow>
   fetch_loop lib cfg day cat ps attempt (Success payload # rs) st =
   Returned ((stage_page lib day cat records (received records ps st))\<lparr>last_numero := n\<rparr>) rs"
  by (subst fetch_loop.simps) (simp add: received_def stage_page_def logged_def)

lemma fetch_loop_full_page:
  "int attempt < max_retries cfg \<Longrightarrow> extract_records payload = Inr records \<Longrightarrow> records \<noteq> [] \<Longrightarrow>
   advance_cursor records (last_numero st) = Inr n \<Longrightarrow> per_page cfg \<le> int (length records) \<Longrightarrow>
   fetch_loop lib cfg day cat ps attempt (Success payload # rs) st =
   fetch_loop lib cfg day cat (make_params cfg day cat n) 0 rs
     ((stage_page lib day cat records (received records ps st))\<lparr>last_numero := n\<rparr>)"
  by (subst fetch_loop.simps) (simp add: received_def stage_page_def logged_def)

lemma py_max_ge: "py_max m vs = Inr n \<Longrightarrow> m \<le> n"
proof (induction vs arbitrary: m)
  case Nil
  then show ?case by simp
next
  case (Cons v vs)
  then obtain k where "py_max (max m k) vs = Inr n"
    by (auto split: option.splits)
  from Cons.IH [OF this] show ?case by simp
qed

lemma py_max_Max:
  "py_max m vs = Inr n \<Longrightarrow> n = Max (insert m (set (List.map_filter as_int vs)))"
proof (induction vs arbitrary: m)
  case Nil
  then show ?case by simp
next
  case (Cons v vs)
  then obtain k where k: "as_int v = Some k" and rest: "py_max (max m k) vs = Inr n"
    by (auto split: option.splits)
  have "n = Max (insert (max m k) (set (List.map_filter as_int vs)))"
    using Cons.IH [OF rest] .
  also have "\<dots> = Max (insert m (insert k (set (List.map_filter as_int vs))))"
    by (cases "set (List.map_filter as_int vs) = {}") (simp_all add: max.assoc)
  finally show ?case using k by (simp add: insert_commute)
qed

lemma advance_cursor_Max:
  "advance_cursor records c = Inr n \<Longrightarrow>
   n = Max (insert c (set (List.map_filter as_int (numero_values records))))"
  by (auto simp: advance_cursor_def dest: py_max_Max split: if_splits)

lemma advance_cursor_ge: "advance_cursor records c = Inr n \<Longrightarrow> c \<le> n"
  by (auto simp: advance_cursor_def dest: py_max_ge split: if_splits)

lemma requests_simps [simp]:
  "requests [] = []"
  "requests (Request p # es) = p # requests es"
  "requests (SleepRateLimit t # es) = requests es"
  "requests (SleepBackoff a # es) = requests es"
  "requests (Abandon # es) = requests es"
  "requests (Cleanup d # es) = requests es"
  "requests (Merge d # es) = requests es"
  by (simp_all add: requests_def)

lemma requests_append [simp]: "requests (es @ fs) = requests es @ requests fs"
  by (simp add: requests_def List.map_filter_def)

lemma trace_ok_abandon: "trace_ok cfg day cat ps [Abandon]"
  by (simp add: trace_ok_def)

lemma trace_ok_request: "trace_ok cfg day cat ps [Request ps]"
  by (simp add: trace_ok_def)

lemma trace_ok_retry:
  assumes "trace_ok cfg day cat ps es" and "fetch_event e" and "request_of e = None"
  shows "trace_ok cfg day cat ps (Request ps # e # es)"
proof -
  have "requests (e # es) = requests es"
    using assms(3) by (simp add: requests_def)
  then have "requests (Request ps # e # es) = ps # requests es"
    by simp
  with assms show ?thesis
    by (auto simp: trace_ok_def)
qed

lemma trace_ok_next:
  assumes "trace_ok cfg day cat (make_params cfg day cat n) es"
    and "where_numeroannonce_gt ps \<le> n"
  shows "trace_ok cfg day cat ps (Request ps # es)"
proof -
  have gt: "where_numeroannonce_gt (make_params cfg day cat n) = n"
    by (simp add: make_params_def)
  show ?thesis
    using assms unfolding trace_ok_def gt
    by (auto simp: trace_ok_def) 
qed

lemma stage_received_simps [simp]:
  "log (stage_page lib day cat records st) = log st"
  "last_numero (stage_page lib day cat records st) = last_numero st"
  "log (received records ps st) = log st @ [Request ps]"
  "last_numero (received records ps st) = last_numero st"
  "last_numero (logged es st) = last_numero st"
  by (simp_all add: stage_page_def received_def logged_def)

lemma fetch_loop_trace:
  "where_numeroannonce_gt ps \<le> last_numero st \<Longrightarrow>
   \<exists>es. log (state_of (fetch_loop lib cfg day cat ps attempt rs st)) = log st @ es
      \<and> trace_ok cfg day cat ps es
      \<and> last_numero st \<le> last_numero (state_of (fetch_loop lib cfg day cat ps attempt rs st))"
proof (induction rs arbitrary: ps attempt st)
  case Nil
  show ?case
  proof (cases "max_retries cfg \<le> int attempt")
    case True
    then show ?thesis by (simp add: fetch_loop_abandon trace_ok_abandon)
  next
    case False
    then show ?thesis by (simp add: fetch_loop_waiting trace_ok_request)
  qed
next
  case (Cons r rs)
  show ?case
  proof (cases "max_retries cfg \<le> int attempt")
    case True
    then show ?thesis by (simp add: fetch_loop_abandon trace_ok_abandon)
  next
    case False
    then have lt: "int attempt < max_retries cfg" by simp
    have retry: "\<exists>es. log (state_of (fetch_loop lib cfg day cat ps (Suc attempt) rs (logged [Request ps, e] st')))
                      = log st' @ es \<and> trace_ok cfg day cat ps es
                    \<and> last_numero st' \<le> last_numero (state_of (fetch_loop lib cfg day cat ps (Suc attempt) rs (logged [Request ps, e] st')))"
      if "fetch_event e" "request_of e = None" "where_numeroannonce_gt ps \<le> last_numero st'" for e st'
    proof -
      from that(3) have "where_numeroannonce_gt ps \<le> last_numero (logged [Request ps, e] st')"
        by simp
      from Cons.IH [OF this, of "Suc attempt"] obtain es where
        es: "log (state_of (fetch_loop lib cfg day cat ps (Suc attempt) rs (logged [Request ps, e] st')))
               = log (logged [Request ps, e] st') @ es"
          "trace_ok cfg day cat ps es"
          "last_numero (logged [Request ps, e] st') \<le> last_numero (state_of (fetch_loop lib cfg day cat ps (Suc attempt) rs (logged [Request ps, e] st')))"
        by blast
      show ?thesis
        using es trace_ok_retry [OF es(2) that(1,2)] by auto
    qed
    show ?thesis
    proof (cases r)
      case RateLimited
      then show ?thesis
        using retry [of "SleepRateLimit (too_many_requests_timeout_sec cfg)" st] Cons.prems
        by (simp add: fetch_loop_rate_limited [OF lt])
    next
      case Failed
      then show ?thesis
        using retry [of "SleepBackoff attempt" st] Cons.prems
        by (simp add: fetch_loop_failed [OF lt])
    next
      case (Success payload)
      show ?thesis
      proof (cases "extract_records payload")
        case (Inl e)
        then show ?thesis
          using retry [of "SleepBackoff attempt" st] Cons.prems Success
          by (simp add: fetch_loop_malformed [OF lt])
      next
        case (Inr records)
        show ?thesis
        proof (cases "records = []")
          case True
          then show ?thesis
            using Inr Success by (simp add: fetch_loop_empty_page [OF lt] trace_ok_request)
        next
          case False
          let ?st1 = "stage_page lib day cat records (received records ps st)"
          show ?thesis
          proof (cases "advance_cursor records (last_numero st)")
            case (Inl e)
            have eq: "fetch_loop lib cfg day cat ps attempt (r # rs) st =
                      fetch_loop lib cfg day cat ps (Suc attempt) rs (logged [SleepBackoff attempt] ?st1)"
              using fetch_loop_bad_numero [OF lt Inr False Inl] Success by simp
            have "where_numeroannonce_gt ps \<le> last_numero (logged [SleepBackoff attempt] ?st1)"
              using Cons.prems by simp
            from Cons.IH [OF this, of "Suc attempt"] obtain es where
              es: "log (state_of (fetch_loop lib cfg day cat ps (Suc attempt) rs (logged [SleepBackoff attempt] ?st1)))
                     = log (logged [SleepBackoff attempt] ?st1) @ es"
                "trace_ok cfg day cat ps es"
                "last_numero (logged [SleepBackoff attempt] ?st1) \<le> last_numero (state_of (fetch_loop lib cfg day cat ps (Suc attempt) rs (logged [SleepBackoff attempt] ?st1)))"
              by blast
            have "trace_ok cfg day cat ps (Request ps # SleepBackoff attempt # es)"
              using trace_ok_retry [OF es(2)] by simp
            then show ?thesis
              using es unfolding eq by auto
          next
            case (Inr n)
            have ge: "last_numero st \<le> n"
              using advance_cursor_ge [OF Inr] .
            let ?st2 = "?st1\<lparr>last_numero := n\<rparr>"
            show ?thesis
            proof (cases "int (length records) < per_page cfg")
              case True
              have "fetch_loop lib cfg day cat ps attempt (r # rs) st = Returned ?st2 rs"
                using fetch_loop_short_page [OF lt \<open>extract_records payload = Inr records\<close> False Inr True] Success
                by simp
              then show ?thesis
                using ge by (simp add: trace_ok_request)
            next
              case full: False
              let ?ps' = "make_params cfg day cat n"
              have eq: "fetch_loop lib cfg day cat ps attempt (r # rs) st =
                        fetch_loop lib cfg day cat ?ps' 0 rs ?st2"
                using fetch_loop_full_page [OF lt \<open>extract_records payload = Inr records\<close> False Inr] full Success
                by simp
              have "where_numeroannonce_gt ?ps' \<le> last_numero ?st2"
                by (simp add: make_params_def)
              from Cons.IH [OF this, of 0] obtain es where
                es: "log (state_of (fetch_loop lib cfg day cat ?ps' 0 rs ?st2)) = log ?st2 @ es"
                  "trace_ok cfg day cat ?ps' es"
                  "last_numero ?st2 \<le> last_numero (state_of (fetch_loop lib cfg day cat ?ps' 0 rs ?st2))"
                by blast
              have "trace_ok cfg day cat ps (Request ps # es)"
                using trace_ok_next [OF es(2)] Cons.prems ge by simp
              then show ?thesis
                using es ge unfolding eq by auto
            qed
          qed
        qed
      qed
    qed
  qed
qed

lemma Ymd_example [simp]: "Ymd example_lib 738950 = u ''20240305''"
  by (simp add: Ymd_def example_lib_def example_strftime_def example_calendar_def)

lemma rate_lim: "int attempt + int n \<le> max_retries cfg \<Longrightarrow>
   fetch_loop lib cfg day cat ps attempt (replicate n RateLimited @ rs) st =
   fetch_loop lib cfg day cat ps (attempt + n) rs
     (logged (concat (replicate n [Request ps, SleepRateLimit (too_many_requests_timeout_sec cfg)])) st)"
proof (induction n arbitrary: attempt st)
  case 0
  then show ?case by simp
next
  case (Suc n)
  then have lt: "int attempt < max_retries cfg" and le: "int (Suc attempt) + int n \<le> max_retries cfg"
    by simp_all
  show ?case
    using Suc.IH [OF le] by (simp add: fetch_loop_rate_limited [OF lt])
qed

text \<open>
  C1, as the code has it. A 429 response is followed by the fixed pause and by the same
  request again, and it uses up one \<open>attempt\<close> of the \<open>for attempt in range(max_retries)\<close>
  loop like every other failure: \<open>n\<close> consecutive 429 responses move \<open>attempt\<close> on by
  \<open>n\<close>, and when that reaches \<open>max_retries\<close> the category is abandoned.
\<close>

theorem rate_limit_consumes_attempt:
  "int attempt + int n \<le> max_retries cfg \<Longrightarrow>
   fetch_loop lib cfg day cat ps attempt (replicate n RateLimited @ rs) st =
     fetch_loop lib cfg day cat ps (attempt + n) rs
       (logged (concat (replicate n [Request ps, SleepRateLimit (too_many_requests_timeout_sec cfg)])) st)
   \<and> (int attempt + int n = max_retries cfg \<longrightarrow>
        fetch_loop lib cfg day cat ps attempt (replicate n RateLimited @ rs) st =
          Returned
            (logged (concat (replicate n [Request ps, SleepRateLimit (too_many_requests_timeout_sec cfg)])
                     @ [Abandon]) st) rs)"
  by (simp add: rate_lim fetch_loop_abandon)

text \<open>
  C1 as stated fails: with \<open>max_retries = 2\<close>, two consecutive 429 responses abandon the
  category, and the page that the server would have sent next is never asked for.
\<close>

theorem rate_limit_abandons_counterexample:
  "fetch_day example_lib example_cfg 738950 (u ''A'')
     [RateLimited, RateLimited, Success (example_page [4, 7])] [] []
   = Returned
       \<lparr>all_records = [], last_numero = 0, page_idx = 0, tmp_dir = [],
        log = [Request (make_params example_cfg 738950 (u ''A'') 0), SleepRateLimit 300,
               Request (make_params example_cfg 738950 (u ''A'') 0), SleepRateLimit 300,
               Abandon]\<rparr>
       [Success (example_page [4, 7])]"
  by (simp add: fetch_day_def fetch_loop_rate_limited fetch_loop_abandon example_cfg_def logged_def)

theorem rate_limit_consumes_attempt_witness:
  "int 0 + int 2 \<le> max_retries example_cfg
   \<and> fetch_loop example_lib example_cfg 738950 (u ''A'') (make_params example_cfg 738950 (u ''A'') 0) 0
       [RateLimited, RateLimited, Success (example_page [4, 7])]
       \<lparr>all_records = [], last_numero = 0, page_idx = 0, tmp_dir = [], log = []\<rparr>
     = Returned
         \<lparr>all_records = [], last_numero = 0, page_idx = 0, tmp_dir = [],
          log = [Request (make_params example_cfg 738950 (u ''A'') 0), SleepRateLimit 300,
                 Request (make_params example_cfg 738950 (u ''A'') 0), SleepRateLimit 300,
                 Abandon]\<rparr>
         [Success (example_page [4, 7])]"
proof -
  have le: "int 0 + int 2 \<le> max_retries example_cfg"
    and eq: "int 0 + int 2 = max_retries example_cfg"
    by (simp_all add: example_cfg_def)
  have "replicate 2 RateLimited @ [Success (example_page [4, 7])]
          = [RateLimited, RateLimited, Success (example_page [4, 7])]"
    by (simp add: numeral_2_eq_2)
  with rate_limit_consumes_attempt [OF le, THEN conjunct2, rule_format, OF eq,
      of example_lib 738950 "u ''A''" "make_params example_cfg 738950 (u ''A'') 0"
        "[Success (example_page [4, 7])]"
        "\<lparr>all_records = [], last_numero = 0, page_idx = 0, tmp_dir = [], log = []\<rparr>"]
  show ?thesis
    using le by (simp add: example_cfg_def logged_def numeral_2_eq_2)
qed

lemma fetch_loop_log_prefix:
  "prefix (log st) (log (state_of (fetch_loop lib cfg day cat ps attempt rs st)))"
proof (induction rs arbitrary: ps attempt st)
  case Nil
  show ?case by (simp add: fetch_loop.simps)
next
  case (Cons r rs)
  have step: "prefix (log st) (log (state_of (fetch_loop lib cfg day cat ps' a rs st')))"
    if "prefix (log st) (log st')" for ps' a st'
    using that Cons.IH [where ps = ps' and attempt = a and st = st'] by (rule prefix_order.trans)
  show ?case
    by (subst fetch_loop.simps)
      (auto simp: Let_def stage_page_def intro!: step split: response.splits sum.splits)
qed

lemma fetch_loop_first_request:
  assumes "int attempt < max_retries cfg"
  shows "prefix (log st @ [Request ps]) (log (state_of (fetch_loop lib cfg day cat ps attempt rs st)))"
proof (cases rs)
  case Nil
  then show ?thesis using assms by (simp add: fetch_loop_waiting)
next
  case (Cons r rs')
  have step: "prefix (log st @ [Request ps]) (log (state_of (fetch_loop lib cfg day cat ps' a rs' st')))"
    if "prefix (log st @ [Request ps]) (log st')" for ps' a st'
    using that fetch_loop_log_prefix [where st = st' and ps = ps' and attempt = a and rs = rs'] by (rule prefix_order.trans)
  show ?thesis
    unfolding Cons using assms
    by (subst fetch_loop.simps)
      (auto simp: Let_def stage_page_def intro!: step split: response.splits sum.splits)
qed

text \<open>
  C2. One successful page, read at an attempt that is still within \<open>max_retries\<close>.
  With zero records the pass returns at once: the page counter and the temporary
  directory are as before, so nothing is staged (and a pass whose first page is empty
  leaves the directory as it found it). With at least one record, all of whose sequence
  numbers are integers, the page is written as fragment number \<open>page_idx + 1\<close>; then a
  page shorter than \<open>per_page\<close> ends the pass, and a page of \<open>per_page\<close> records or more is
  followed by a further request, with the new cursor.
\<close>

theorem page_ends_or_continues:
  "int attempt < max_retries cfg \<Longrightarrow> extract_records payload = Inr records \<Longrightarrow>
   (records = [] \<longrightarrow>
      fetch_loop lib cfg day cat ps attempt (Success payload # rs) st
        = Returned (st\<lparr>log := log st @ [Request ps]\<rparr>) rs)
   \<and> (records = [] \<longrightarrow>
      fetch_day lib cfg day cat (Success payload # rs) tmp lg
        = Returned
            \<lparr>all_records = [], last_numero = 0, page_idx = 0, tmp_dir = tmp,
             log = lg @ [Request (make_params cfg day cat 0)]\<rparr> rs)
   \<and> (records \<noteq> [] \<and> advance_cursor records (last_numero st) = Inr n
        \<and> int (length records) < per_page cfg \<longrightarrow>
      fetch_loop lib cfg day cat ps attempt (Success payload # rs) st
        = Returned
            \<lparr>all_records = all_records st @ records, last_numero = n,
               page_idx = Suc (page_idx st),
               tmp_dir = AList.update (part_name lib day cat (Suc (page_idx st)))
                           (ndjson lib records) (tmp_dir st),
               log = log st @ [Request ps]\<rparr> rs)
   \<and> (records \<noteq> [] \<and> advance_cursor records (last_numero st) = Inr n
        \<and> per_page cfg \<le> int (length records) \<longrightarrow>
      fetch_loop lib cfg day cat ps attempt (Success payload # rs) st
        = fetch_loop lib cfg day cat (make_params cfg day cat n) 0 rs
            \<lparr>all_records = all_records st @ records, last_numero = n,
               page_idx = Suc (page_idx st),
               tmp_dir = AList.update (part_name lib day cat (Suc (page_idx st)))
                           (ndjson lib records) (tmp_dir st),
               log = log st @ [Request ps]\<rparr>
      \<and> prefix (log st @ [Request ps, Request (make_params cfg day cat n)])
           (log (state_of (fetch_loop lib cfg day cat ps attempt (Success payload # rs) st))))"
proof (intro conjI impI)
  assume lt: "int attempt < max_retries cfg" and ex: "extract_records payload = Inr records"
  {
    assume "records = []"
    then show "fetch_loop lib cfg day cat ps attempt (Success payload # rs) st
        = Returned (st\<lparr>log := log st @ [Request ps]\<rparr>) rs"
      using fetch_loop_empty_page [OF lt] ex by (simp add: logged_def)
  }
  {
    assume "records = []"
    moreover have "int 0 < max_retries cfg" using lt by simp
    ultimately show "fetch_day lib cfg day cat (Success payload # rs) tmp lg
        = Returned
            \<lparr>all_records = [], last_numero = 0, page_idx = 0, tmp_dir = tmp,
             log = lg @ [Request (make_params cfg day cat 0)]\<rparr> rs"
      using ex by (simp add: fetch_day_def fetch_loop_empty_page logged_def)
  }
  {
    assume a: "records \<noteq> [] \<and> advance_cursor records (last_numero st) = Inr n
        \<and> int (length records) < per_page cfg"
    then show "fetch_loop lib cfg day cat ps attempt (Success payload # rs) st
        = Returned
            \<lparr>all_records = all_records st @ records, last_numero = n,
               page_idx = Suc (page_idx st),
               tmp_dir = AList.update (part_name lib day cat (Suc (page_idx st)))
                           (ndjson lib records) (tmp_dir st),
               log = log st @ [Request ps]\<rparr> rs"
      using fetch_loop_short_page [OF lt ex, where n = n and st = st]
      by (cases st) (simp add: stage_page_def received_def logged_def write_ndjson_part_def)
  }
  {
    assume a: "records \<noteq> [] \<and> advance_cursor records (last_numero st) = Inr n
        \<and> per_page cfg \<le> int (length records)"
    let ?st' = "\<lparr>all_records = all_records st @ records, last_numero = n,
               page_idx = Suc (page_idx st),
               tmp_dir = AList.update (part_name lib day cat (Suc (page_idx st)))
                           (ndjson lib records) (tmp_dir st),
               log = log st @ [Request ps]\<rparr>"
    from a show eq: "fetch_loop lib cfg day cat ps attempt (Success payload # rs) st
        = fetch_loop lib cfg day cat (make_params cfg day cat n) 0 rs ?st'"
      using fetch_loop_full_page [OF lt ex, where n = n and st = st]
      by (cases st) (simp add: stage_page_def received_def logged_def write_ndjson_part_def)
    have "int 0 < max_retries cfg" using lt by simp
    from fetch_loop_first_request [OF this, where st = ?st' and ps = "make_params cfg day cat n" and rs = rs]
    show "prefix (log st @ [Request ps, Request (make_params cfg day cat n)])
           (log (state_of (fetch_loop lib cfg day cat ps attempt (Success payload # rs) st)))"
      unfolding eq by simp
  }
qed


lemma extract_example_page [simp]:
  "extract_records (example_page ns) = Inr (map announcement ns)"
proof (cases ns)
  case Nil
  then show ?thesis
    by (simp add: example_page_def extract_records_def key_with_def)
next
  case (Cons a list)
  have "results_loop acc (map announcement ms) = acc @ map announcement ms" for acc ms
    by (induction ms arbitrary: acc) (simp_all add: announcement_def)
  then show ?thesis
    by (simp add: example_page_def extract_records_def key_with_def)
qed

lemma numero_values_announcements [simp]:
  "numero_values (map announcement ns) = map JInt ns"
  by (induction ns) (simp_all add: numero_values_def announcement_def)

lemma format_03d_examples [simp]:
  "format_03d (Suc 0) = u ''001''" "format_03d 2 = u ''002''" "format_03d 101 = u ''101''"
  "format_03d 1000 = u ''1000''" "format_03d (Suc (Suc 0)) = u ''002''"
proof -
  have "replicate 2 (48::nat) = [48, 48]"
    by (simp add: numeral_2_eq_2)
  then show "format_03d (Suc 0) = u ''001''" "format_03d 2 = u ''002''"
    "format_03d 101 = u ''101''" "format_03d 1000 = u ''1000''"
    by (simp_all add: format_03d_def dec.simps u_def)
  then show "format_03d (Suc (Suc 0)) = u ''002''"
    by (simp add: numeral_2_eq_2)
qed

lemma example_lib_simps [simp]:
  "py_dumps example_lib = example_dumps"
  "py_isdigit example_lib = latin1_isdigit"
  "py_is_Mn example_lib c = (768 \<le> c \<and> c \<le> 879)"
  "py_lower example_lib s = map latin1_lower s"
  "py_nfd example_lib s = concat (map latin1_nfd s)"
  by (simp_all add: example_lib_def)

theorem page_ends_or_continues_witness:
  "int 0 < max_retries example_cfg
   \<and> extract_records (example_page []) = Inr []
   \<and> fetch_day example_lib example_cfg 738950 (u ''A'') [Success (example_page [])] [] []
       = Returned
           \<lparr>all_records = [], last_numero = 0, page_idx = 0, tmp_dir = [],
            log = [Request (make_params example_cfg 738950 (u ''A'') 0)]\<rparr> []
   \<and> extract_records (example_page [4]) = Inr [announcement 4]
   \<and> advance_cursor [announcement 4] 0 = Inr 4
   \<and> int (length [announcement 4]) < per_page example_cfg
   \<and> fetch_loop example_lib example_cfg 738950 (u ''A'') (make_params example_cfg 738950 (u ''A'') 0) 0
         [Success (example_page [4])]
         \<lparr>all_records = [], last_numero = 0, page_idx = 0, tmp_dir = [], log = []\<rparr>
       = Returned
           \<lparr>all_records = [announcement 4], last_numero = 4, page_idx = 1,
            tmp_dir = [(u ''20240305_bodacc_update_part_A_001.jsonl'',
                        example_dumps (announcement 4) @ [10])],
            log = [Request (make_params example_cfg 738950 (u ''A'') 0)]\<rparr> []
   \<and> extract_records (example_page [4, 7]) = Inr [announcement 4, announcement 7]
   \<and> advance_cursor [announcement 4, announcement 7] 0 = Inr 7
   \<and> per_page example_cfg \<le> int (length [announcement 4, announcement 7])
   \<and> prefix [Request (make_params example_cfg 738950 (u ''A'') 0),
              Request (make_params example_cfg 738950 (u ''A'') 7)]
        (log (state_of
           (fetch_loop example_lib example_cfg 738950 (u ''A'')
              (make_params example_cfg 738950 (u ''A'') 0) 0
              [Success (example_page [4, 7])]
              \<lparr>all_records = [], last_numero = 0, page_idx = 0, tmp_dir = [], log = []\<rparr>)))"
proof -
  let ?st = "\<lparr>all_records = [], last_numero = 0, page_idx = 0, tmp_dir = [], log = []\<rparr>"
  have lt: "int 0 < max_retries example_cfg"
    by (simp add: example_cfg_def)
  have e0: "extract_records (example_page []) = Inr []"
    and e1: "extract_records (example_page [4]) = Inr [announcement 4]"
    and e2: "extract_records (example_page [4, 7]) = Inr [announcement 4, announcement 7]"
    by simp_all
  have a1: "advance_cursor [announcement 4] (last_numero ?st) = Inr 4"
    and a2: "advance_cursor [announcement 4, announcement 7] (last_numero ?st) = Inr 7"
    using numero_values_announcements [of "[4]"] numero_values_announcements [of "[4, 7]"]
    by (simp_all add: advance_cursor_def)
  have s1: "int (length [announcement 4]) < per_page example_cfg"
    and s2: "per_page example_cfg \<le> int (length [announcement 4, announcement 7])"
    by (simp_all add: example_cfg_def)
  note w0 = page_ends_or_continues [OF lt e0, THEN conjunct2, THEN conjunct1, rule_format, OF refl,
      where lib = example_lib and day = 738950 and cat = "u ''A''" and rs = "[]" and tmp = "[]"
        and lg = "[]"]
  note w1 = page_ends_or_continues [OF lt e1, THEN conjunct2, THEN conjunct2, THEN conjunct1,
      rule_format, where st = ?st and n = 4 and lib = example_lib and day = 738950
        and cat = "u ''A''" and rs = "[]" and ps = "make_params example_cfg 738950 (u ''A'') 0"]
  note w2 = page_ends_or_continues [OF lt e2, THEN conjunct2, THEN conjunct2, THEN conjunct2,
      rule_format, where st = ?st and n = 7 and lib = example_lib and day = 738950
        and cat = "u ''A''" and rs = "[]" and ps = "make_params example_cfg 738950 (u ''A'') 0"]
  have "fetch_loop example_lib example_cfg 738950 (u ''A'') (make_params example_cfg 738950 (u ''A'') 0) 0
         [Success (example_page [4])] ?st
       = Returned
           \<lparr>all_records = [announcement 4], last_numero = 4, page_idx = 1,
            tmp_dir = [(u ''20240305_bodacc_update_part_A_001.jsonl'',
                        example_dumps (announcement 4) @ [10])],
            log = [Request (make_params example_cfg 738950 (u ''A'') 0)]\<rparr> []"
    using w1 a1 s1 by (simp add: part_name_def ndjson_def u_def)
  moreover have "prefix [Request (make_params example_cfg 738950 (u ''A'') 0),
              Request (make_params example_cfg 738950 (u ''A'') 7)]
        (log (state_of
           (fetch_loop example_lib example_cfg 738950 (u ''A'')
              (make_params example_cfg 738950 (u ''A'') 0) 0
              [Success (example_page [4, 7])] ?st)))"
  proof -
    have "[announcement 4, announcement 7] \<noteq> []
        \<and> advance_cursor [announcement 4, announcement 7] (last_numero ?st) = Inr 7
        \<and> per_page example_cfg \<le> int (length [announcement 4, announcement 7])"
      using a2 s2 by simp
    from w2 [OF this, THEN conjunct2] show ?thesis by simp
  qed
  ultimately show ?thesis
    using lt e0 e1 e2 a1 a2 s1 s2 w0 by simp
qed


lemma py_max_total:
  "list_all (\<lambda>v. as_int v \<noteq> None) vs \<Longrightarrow> \<exists>n. py_max m vs = Inr n"
  by (induction vs arbitrary: m) auto

lemma advance_cursor_total:
  assumes "list_all (\<lambda>v. as_int v \<noteq> None) (numero_values records)"
  shows "advance_cursor records c
           = Inr (Max (insert c (set (List.map_filter as_int (numero_values records)))))"
proof (cases "numero_values records = []")
  case True
  then show ?thesis by (simp add: advance_cursor_def)
next
  case False
  from py_max_total [OF assms, of c] obtain n where "py_max c (numero_values records) = Inr n"
    by blast
  with False have n: "advance_cursor records c = Inr n"
    by (simp add: advance_cursor_def)
  from advance_cursor_Max [OF n] n show ?thesis by simp
qed

lemma fetch_day_trace:
  "\<exists>es. log (state_of (fetch_day lib cfg day cat rs tmp lg)) = lg @ es
      \<and> trace_ok cfg day cat (make_params cfg day cat 0) es
      \<and> 0 \<le> last_numero (state_of (fetch_day lib cfg day cat rs tmp lg))"
proof -
  let ?st = "\<lparr>all_records = [], last_numero = 0, page_idx = 0, tmp_dir = tmp, log = lg\<rparr>"
  have "where_numeroannonce_gt (make_params cfg day cat 0) \<le> last_numero ?st"
    by (simp add: make_params_def)
  from fetch_loop_trace [OF this, of lib cfg day cat 0 rs] show ?thesis
    by (simp add: fetch_day_def)
qed

text \<open>
  C3. In one pass of \<open>_fetch_day\<close> every request asks for the day and the category of
  the pass, ordered by \<open>numeroannonce\<close>, at most \<open>per_page\<close> records, with sequence number
  above a cursor; the first request has cursor 0 and the cursors of the successive
  requests never decrease. After a staged page whose sequence numbers are integers the
  cursor is the maximum of its former value and of the sequence numbers of the page, and
  it is the cursor of the next request.
\<close>

theorem cursor_never_decreases:
  "(\<forall>p\<in>set (requests (log (state_of (fetch_day lib cfg day cat rs tmp [])))).
      refine_dateparution p = day \<and> where_publicationavis p = cat
    \<and> order_by p = u ''numeroannonce'' \<and> limit p = per_page cfg
    \<and> 0 \<le> where_numeroannonce_gt p)
   \<and> (requests (log (state_of (fetch_day lib cfg day cat rs tmp []))) \<noteq> [] \<longrightarrow>
        where_numeroannonce_gt (hd (requests (log (state_of (fetch_day lib cfg day cat rs tmp []))))) = 0)
   \<and> sorted (map where_numeroannonce_gt
               (requests (log (state_of (fetch_day lib cfg day cat rs tmp [])))))
   \<and> (int attempt < max_retries cfg \<and> extract_records payload = Inr records \<and> records \<noteq> []
        \<and> list_all (\<lambda>v. as_int v \<noteq> None) (numero_values records) \<longrightarrow>
        (\<exists>st'. last_numero st'
                 = Max (insert (last_numero st)
                          (set (List.map_filter as_int (numero_values records))))
             \<and> last_numero st \<le> last_numero st'
             \<and> fetch_loop lib cfg day cat ps attempt (Success payload # rs') st =
                 (if int (length records) < per_page cfg then Returned st' rs'
                  else fetch_loop lib cfg day cat
                         (make_params cfg day cat (last_numero st')) 0 rs' st')))"
proof -
  let ?reqs = "requests (log (state_of (fetch_day lib cfg day cat rs tmp [])))"
  obtain es where es: "log (state_of (fetch_day lib cfg day cat rs tmp [])) = es"
    and ok: "trace_ok cfg day cat (make_params cfg day cat 0) es"
    using fetch_day_trace [of lib cfg day cat rs tmp "[]"] by auto
  have 1: "\<forall>p\<in>set ?reqs. refine_dateparution p = day \<and> where_publicationavis p = cat
    \<and> order_by p = u ''numeroannonce'' \<and> limit p = per_page cfg
    \<and> 0 \<le> where_numeroannonce_gt p"
    using ok unfolding es trace_ok_def by (auto simp: make_params_def)
  have 2: "?reqs \<noteq> [] \<longrightarrow> where_numeroannonce_gt (hd ?reqs) = 0"
    using ok unfolding es trace_ok_def by (auto simp: make_params_def)
  have 3: "sorted (map where_numeroannonce_gt ?reqs)"
    using ok unfolding es trace_ok_def by simp
  have 4: "\<exists>st'. last_numero st'
                 = Max (insert (last_numero st)
                          (set (List.map_filter as_int (numero_values records))))
             \<and> last_numero st \<le> last_numero st'
             \<and> fetch_loop lib cfg day cat ps attempt (Success payload # rs') st =
                 (if int (length records) < per_page cfg then Returned st' rs'
                  else fetch_loop lib cfg day cat
                         (make_params cfg day cat (last_numero st')) 0 rs' st')"
    if lt: "int attempt < max_retries cfg" and ex: "extract_records payload = Inr records"
      and ne: "records \<noteq> []"
      and ints: "list_all (\<lambda>v. as_int v \<noteq> None) (numero_values records)"
  proof -
    let ?n = "Max (insert (last_numero st) (set (List.map_filter as_int (numero_values records))))"
    let ?st' = "(stage_page lib day cat records (received records ps st))\<lparr>last_numero := ?n\<rparr>"
    have adv: "advance_cursor records (last_numero st) = Inr ?n"
      using advance_cursor_total [OF ints] .
    have ge: "last_numero st \<le> ?n"
      using advance_cursor_ge [OF adv] .
    have step: "fetch_loop lib cfg day cat ps attempt (Success payload # rs') st =
                 (if int (length records) < per_page cfg then Returned ?st' rs'
                  else fetch_loop lib cfg day cat (make_params cfg day cat (last_numero ?st')) 0 rs' ?st')"
      using fetch_loop_short_page [OF lt ex ne adv] fetch_loop_full_page [OF lt ex ne adv]
      by simp
    have "last_numero ?st' = ?n \<and> last_numero st \<le> last_numero ?st'
      \<and> fetch_loop lib cfg day cat ps attempt (Success payload # rs') st =
                 (if int (length records) < per_page cfg then Returned ?st' rs'
                  else fetch_loop lib cfg day cat (make_params cfg day cat (last_numero ?st')) 0 rs' ?st')"
      using ge step by simp
    then show ?thesis by (rule exI [of _ ?st'])
  qed
  from 1 2 3 4 show ?thesis by blast
qed

lemma example_pass:
  "fetch_day example_lib example_cfg 738950 (u ''A'')
     [Success (example_page [4, 7]), RateLimited, Success (example_page [9])] [] []
   = Returned
       \<lparr>all_records = [announcement 4, announcement 7, announcement 9], last_numero = 9,
        page_idx = 2,
        tmp_dir = [(u ''20240305_bodacc_update_part_A_001.jsonl'',
                    example_dumps (announcement 4) @ [10] @ example_dumps (announcement 7) @ [10]),
                   (u ''20240305_bodacc_update_part_A_002.jsonl'',
                    example_dumps (announcement 9) @ [10])],
        log = [Request (make_params example_cfg 738950 (u ''A'') 0),
               Request (make_params example_cfg 738950 (u ''A'') 7),
               SleepRateLimit 300,
               Request (make_params example_cfg 738950 (u ''A'') 7)]\<rparr> []"
  using numero_values_announcements [of "[4, 7]"] numero_values_announcements [of "[9]"]
  by (simp add: fetch_day_def fetch_loop.simps example_cfg_def Let_def logged_def stage_page_def
      advance_cursor_def write_ndjson_part_def part_name_def ndjson_def u_def
      make_params_def)


theorem cursor_never_decreases_witness:
  "requests (log (state_of (fetch_day example_lib example_cfg 738950 (u ''A'')
       [Success (example_page [4, 7]), RateLimited, Success (example_page [9])] [] [])))
     = [make_params example_cfg 738950 (u ''A'') 0, make_params example_cfg 738950 (u ''A'') 7,
        make_params example_cfg 738950 (u ''A'') 7]
   \<and> sorted (map where_numeroannonce_gt
        (requests (log (state_of (fetch_day example_lib example_cfg 738950 (u ''A'')
           [Success (example_page [4, 7]), RateLimited, Success (example_page [9])] [] [])))))
   \<and> int 0 < max_retries example_cfg
   \<and> extract_records (example_page [4, 7]) = Inr [announcement 4, announcement 7]
   \<and> list_all (\<lambda>v. as_int v \<noteq> None) (numero_values [announcement 4, announcement 7])
   \<and> (\<exists>st'. last_numero st' = 7
         \<and> fetch_loop example_lib example_cfg 738950 (u ''A'')
             (make_params example_cfg 738950 (u ''A'') 0) 0
             [Success (example_page [4, 7]), RateLimited, Success (example_page [9])]
             \<lparr>all_records = [], last_numero = 0, page_idx = 0, tmp_dir = [], log = []\<rparr>
           = fetch_loop example_lib example_cfg 738950 (u ''A'')
               (make_params example_cfg 738950 (u ''A'') 7) 0
               [RateLimited, Success (example_page [9])] st')"
proof -
  let ?rs = "[Success (example_page [4, 7]), RateLimited, Success (example_page [9])]"
  let ?st = "\<lparr>all_records = [], last_numero = 0, page_idx = 0, tmp_dir = [], log = []\<rparr>"
  have nv: "numero_values [announcement 4, announcement 7] = [JInt 4, JInt 7]"
    using numero_values_announcements [of "[4, 7]"] by simp
  have hyp: "int 0 < max_retries example_cfg
     \<and> extract_records (example_page [4, 7]) = Inr [announcement 4, announcement 7]
     \<and> [announcement 4, announcement 7] \<noteq> []
     \<and> list_all (\<lambda>v. as_int v \<noteq> None) (numero_values [announcement 4, announcement 7])"
    using extract_example_page [of "[4, 7]"] by (simp add: example_cfg_def nv)
  note inst = cursor_never_decreases [where lib = example_lib and cfg = example_cfg
      and day = 738950 and cat = "u ''A''" and rs = "?rs" and tmp = "[]" and attempt = 0
      and payload = "example_page [4, 7]" and records = "[announcement 4, announcement 7]"
      and st = "?st" and ps = "make_params example_cfg 738950 (u ''A'') 0"
      and rs' = "[RateLimited, Success (example_page [9])]"]
  have sorted: "sorted (map where_numeroannonce_gt
        (requests (log (state_of (fetch_day example_lib example_cfg 738950 (u ''A'') ?rs [] [])))))"
    using inst by blast
  from inst hyp obtain st' where
    "last_numero st' = Max (insert (last_numero ?st)
        (set (List.map_filter as_int (numero_values [announcement 4, announcement 7]))))"
    "fetch_loop example_lib example_cfg 738950 (u ''A'')
        (make_params example_cfg 738950 (u ''A'') 0) 0 ?rs ?st =
       (if int (length [announcement 4, announcement 7]) < per_page example_cfg
        then Returned st' [RateLimited, Success (example_page [9])]
        else fetch_loop example_lib example_cfg 738950 (u ''A'')
               (make_params example_cfg 738950 (u ''A'') (last_numero st')) 0
               [RateLimited, Success (example_page [9])] st')"
    by blast
  then have step: "\<exists>st'. last_numero st' = 7
         \<and> fetch_loop example_lib example_cfg 738950 (u ''A'')
             (make_params example_cfg 738950 (u ''A'') 0) 0 ?rs ?st
           = fetch_loop example_lib example_cfg 738950 (u ''A'')
               (make_params example_cfg 738950 (u ''A'') 7) 0
               [RateLimited, Success (example_page [9])] st'"
    by (intro exI [of _ st']) (simp add: nv example_cfg_def)
  show ?thesis
    using sorted hyp step by (simp add: example_pass)
qed

section \<open>Properties of the loop over the days\<close>

lemma fetch_day_log:
  "\<exists>es. log (state_of (fetch_day lib cfg day cat rs tmp lg)) = lg @ es
      \<and> (\<forall>e\<in>set es. fetch_event e)
      \<and> (\<forall>p\<in>set (requests es). refine_dateparution p = day \<and> where_publicationavis p = cat)"
proof -
  from fetch_day_trace [of lib cfg day cat rs tmp lg] obtain es where
    "log (state_of (fetch_day lib cfg day cat rs tmp lg)) = lg @ es"
    "trace_ok cfg day cat (make_params cfg day cat 0) es"
    by blast
  then show ?thesis
    by (intro exI [of _ es]) (auto simp: trace_ok_def make_params_def)
qed

lemma merge_keeps_files:
  assumes "map_of daily (daily_name lib day) = None" and "map_of daily name = Some t"
  shows "map_of (snd (merge_day_parts lib tmp day daily)) name = Some t"
proof -
  have "name \<noteq> daily_name lib day"
    using assms by auto
  then show ?thesis
    using assms by (simp add: merge_day_parts_def Let_def touch_def update_conv' map_add_def)
qed

lemma merge_creates_file:
  "map_of (snd (merge_day_parts lib tmp day daily)) (daily_name lib day) \<noteq> None"
  by (simp add: merge_day_parts_def Let_def touch_def update_conv' map_add_def)

lemma fetch_types_ABC:
  assumes "fetch_types lib cfg day PUBLICATION_TYPES rs w1 = Returned w2 rs'"
  shows "\<exists>sa sb sc rs1 rs2.
           fetch_day lib cfg day (u ''A'') rs (w_tmp w1) (w_log w1) = Returned sa rs1
         \<and> fetch_day lib cfg day (u ''B'') rs1 (tmp_dir sa) (log sa) = Returned sb rs2
         \<and> fetch_day lib cfg day (u ''C'') rs2 (tmp_dir sb) (log sb) = Returned sc rs'
         \<and> w2 = w1\<lparr>w_tmp := tmp_dir sc, w_log := log sc\<rparr>"
  using assms by (auto simp: PUBLICATION_TYPES_def split: outcome.splits)

lemma fetch_types_daily:
  "w_daily (state_of (fetch_types lib cfg day cats rs w)) = w_daily w"
  by (induction cats arbitrary: rs w) (auto split: outcome.splits)

lemma process_day_keeps_files:
  assumes "map_of (w_daily w) name = Some t"
  shows "map_of (w_daily (state_of (process_day lib cfg day rs w))) name = Some t"
proof (cases "map_of (w_daily w) (daily_name lib day) \<noteq> None")
  case True
  then show ?thesis using assms by (simp add: process_day_def)
next
  case False
  let ?w1 = "w\<lparr>w_tmp := cleanup_day_parts lib (w_tmp w) day, w_log := w_log w @ [Cleanup day]\<rparr>"
  show ?thesis
  proof (cases "fetch_types lib cfg day PUBLICATION_TYPES rs ?w1")
    case (Waiting w2)
    then have "w_daily w2 = w_daily w"
      using fetch_types_daily [of lib cfg day PUBLICATION_TYPES rs ?w1] by simp
    then show ?thesis
      using False Waiting assms by (simp add: process_day_def)
  next
    case (Returned w2 rs')
    then have d: "w_daily w2 = w_daily w"
      using fetch_types_daily [of lib cfg day PUBLICATION_TYPES rs ?w1] by simp
    have "map_of (snd (merge_day_parts lib (w_tmp w2) day (w_daily w))) name = Some t"
      using merge_keeps_files [of "w_daily w" lib day name t] False assms by simp
    then show ?thesis
      using False Returned d by (auto simp: process_day_def split: prod.splits)
  qed
qed

lemma run_days_keeps_files:
  "map_of (w_daily w) name = Some t \<Longrightarrow>
   map_of (w_daily (state_of (run_days lib cfg days rs w))) name = Some t"
proof (induction days arbitrary: rs w)
  case Nil
  then show ?case by simp
next
  case (Cons day days)
  from process_day_keeps_files [OF Cons.prems, of lib cfg day rs]
  show ?case
    by (cases "process_day lib cfg day rs w") (auto intro: Cons.IH)
qed

text \<open>
  C4. When the day's file is in the daily directory, the body of the loop returns
  without any effect: the directories, the log (no cleanup, no request, no merge) and the
  script of responses are as before. When it is absent and the body returns, it has
  run the cleanup, then \<open>_fetch_day\<close> for A, for B and for C, each from where the former
  left the responses, the temporary directory and the log, then the merge: the log of the
  day is one \<open>Cleanup\<close>, the events of the three passes in that order, one \<open>Merge\<close>.
  Over a whole range of days, a file that is in the daily directory keeps its text.
\<close>

theorem existing_day_is_skipped:
  "(map_of (w_daily w) (daily_name lib day) \<noteq> None \<longrightarrow>
      process_day lib cfg day rs w = Returned w rs)
   \<and> (map_of (w_daily w) (daily_name lib day) = None
        \<and> process_day lib cfg day rs w = Returned w' rs' \<longrightarrow>
      (\<exists>sa sb sc rs1 rs2.
          fetch_day lib cfg day (u ''A'') rs (cleanup_day_parts lib (w_tmp w) day)
            (w_log w @ [Cleanup day]) = Returned sa rs1
        \<and> fetch_day lib cfg day (u ''B'') rs1 (tmp_dir sa) (log sa) = Returned sb rs2
        \<and> fetch_day lib cfg day (u ''C'') rs2 (tmp_dir sb) (log sb) = Returned sc rs'
        \<and> (w_tmp w', w_daily w') = merge_day_parts lib (tmp_dir sc) day (w_daily w)
        \<and> w_log w' = log sc @ [Merge day])
      \<and> (\<exists>ea eb ec.
          w_log w' = w_log w @ [Cleanup day] @ ea @ eb @ ec @ [Merge day]
        \<and> (\<forall>e\<in>set (ea @ eb @ ec). fetch_event e)
        \<and> (\<forall>p\<in>set (requests ea). refine_dateparution p = day \<and> where_publicationavis p = u ''A'')
        \<and> (\<forall>p\<in>set (requests eb). refine_dateparution p = day \<and> where_publicationavis p = u ''B'')
        \<and> (\<forall>p\<in>set (requests ec). refine_dateparution p = day \<and> where_publicationavis p = u ''C'')))
   \<and> (map_of (w_daily w) name = Some t \<longrightarrow>
        map_of (w_daily (state_of (run_days lib cfg days rs w))) name = Some t)"
proof (intro conjI impI)
  assume "map_of (w_daily w) (daily_name lib day) \<noteq> None"
  then show "process_day lib cfg day rs w = Returned w rs"
    by (simp add: process_day_def)
next
  assume "map_of (w_daily w) name = Some t"
  then show "map_of (w_daily (state_of (run_days lib cfg days rs w))) name = Some t"
    by (rule run_days_keeps_files)
next
  assume a: "map_of (w_daily w) (daily_name lib day) = None
        \<and> process_day lib cfg day rs w = Returned w' rs'"
  let ?w1 = "w\<lparr>w_tmp := cleanup_day_parts lib (w_tmp w) day, w_log := w_log w @ [Cleanup day]\<rparr>"
  from a obtain w2 where ft: "fetch_types lib cfg day PUBLICATION_TYPES rs ?w1 = Returned w2 rs'"
    and w': "w' = (let (tmp', daily') = merge_day_parts lib (w_tmp w2) day (w_daily w2) in
                w2\<lparr>w_tmp := tmp', w_daily := daily', w_log := w_log w2 @ [Merge day]\<rparr>)"
    by (auto simp: process_day_def Let_def split: outcome.splits prod.splits)
  from fetch_types_ABC [OF ft] obtain sa sb sc rs1 rs2 where
    A: "fetch_day lib cfg day (u ''A'') rs (cleanup_day_parts lib (w_tmp w) day)
            (w_log w @ [Cleanup day]) = Returned sa rs1"
    and B: "fetch_day lib cfg day (u ''B'') rs1 (tmp_dir sa) (log sa) = Returned sb rs2"
    and C: "fetch_day lib cfg day (u ''C'') rs2 (tmp_dir sb) (log sb) = Returned sc rs'"
    and w2: "w2 = ?w1\<lparr>w_tmp := tmp_dir sc, w_log := log sc\<rparr>"
    by auto
  have m: "(w_tmp w', w_daily w') = merge_day_parts lib (tmp_dir sc) day (w_daily w)"
    and l: "w_log w' = log sc @ [Merge day]"
    using w' w2 by (simp_all split: prod.splits)
  show "\<exists>sa sb sc rs1 rs2.
          fetch_day lib cfg day (u ''A'') rs (cleanup_day_parts lib (w_tmp w) day)
            (w_log w @ [Cleanup day]) = Returned sa rs1
        \<and> fetch_day lib cfg day (u ''B'') rs1 (tmp_dir sa) (log sa) = Returned sb rs2
        \<and> fetch_day lib cfg day (u ''C'') rs2 (tmp_dir sb) (log sb) = Returned sc rs'
        \<and> (w_tmp w', w_daily w') = merge_day_parts lib (tmp_dir sc) day (w_daily w)
        \<and> w_log w' = log sc @ [Merge day]"
    using A B C m l by blast
  from fetch_day_log [of lib cfg day "u ''A''" rs "cleanup_day_parts lib (w_tmp w) day"
      "w_log w @ [Cleanup day]"] A
  obtain ea where ea: "log sa = (w_log w @ [Cleanup day]) @ ea" "\<forall>e\<in>set ea. fetch_event e"
    "\<forall>p\<in>set (requests ea). refine_dateparution p = day \<and> where_publicationavis p = u ''A''"
    by auto
  from fetch_day_log [of lib cfg day "u ''B''" rs1 "tmp_dir sa" "log sa"] B
  obtain eb where eb: "log sb = log sa @ eb" "\<forall>e\<in>set eb. fetch_event e"
    "\<forall>p\<in>set (requests eb). refine_dateparution p = day \<and> where_publicationavis p = u ''B''"
    by auto
  from fetch_day_log [of lib cfg day "u ''C''" rs2 "tmp_dir sb" "log sb"] C
  obtain ec where ec: "log sc = log sb @ ec" "\<forall>e\<in>set ec. fetch_event e"
    "\<forall>p\<in>set (requests ec). refine_dateparution p = day \<and> where_publicationavis p = u ''C''"
    by auto
  have "w_log w' = w_log w @ [Cleanup day] @ ea @ eb @ ec @ [Merge day]"
    using l ea(1) eb(1) ec(1) by simp
  moreover have "\<forall>e\<in>set (ea @ eb @ ec). fetch_event e"
    using ea(2) eb(2) ec(2) by auto
  ultimately show "\<exists>ea eb ec.
          w_log w' = w_log w @ [Cleanup day] @ ea @ eb @ ec @ [Merge day]
        \<and> (\<forall>e\<in>set (ea @ eb @ ec). fetch_event e)
        \<and> (\<forall>p\<in>set (requests ea). refine_dateparution p = day \<and> where_publicationavis p = u ''A'')
        \<and> (\<forall>p\<in>set (requests eb). refine_dateparution p = day \<and> where_publicationavis p = u ''B'')
        \<and> (\<forall>p\<in>set (requests ec). refine_dateparution p = day \<and> where_publicationavis p = u ''C'')"
    using ea(3) eb(3) ec(3) by blast
qed


lemma daily_name_example [simp]:
  "daily_name example_lib 738950 = u ''20240305_bodacc_update.jsonl''"
  by (simp add: daily_name_def u_def)

lemma example_day:
  "process_day example_lib example_cfg 738950
     [Success (example_page [4]), Success (example_page []), Success (example_page [])]
     \<lparr>w_tmp = [], w_daily = [], w_log = []\<rparr>
   = Returned
       \<lparr>w_tmp = [],
        w_daily = [(u ''20240305_bodacc_update.jsonl'', example_dumps (announcement 4) @ [10])],
        w_log = [Cleanup 738950,
                 Request (make_params example_cfg 738950 (u ''A'') 0),
                 Request (make_params example_cfg 738950 (u ''B'') 0),
                 Request (make_params example_cfg 738950 (u ''C'') 0),
                 Merge 738950]\<rparr> []"
  using numero_values_announcements [of "[4]"]
  by (simp add: process_day_def PUBLICATION_TYPES_def cleanup_day_parts_def
      fetch_day_def fetch_loop.simps example_cfg_def Let_def logged_def stage_page_def
      advance_cursor_def write_ndjson_part_def part_name_def ndjson_def
      merge_day_parts_def is_day_part_def glob_match_def suffix_to_prefix u_def)

theorem existing_day_is_skipped_witness:
  "map_of [(u ''20240305_bodacc_update.jsonl'', [])] (daily_name example_lib 738950) \<noteq> None
   \<and> process_day example_lib example_cfg 738950 [Success (example_page [4])]
        \<lparr>w_tmp = [], w_daily = [(u ''20240305_bodacc_update.jsonl'', [])], w_log = []\<rparr>
      = Returned \<lparr>w_tmp = [], w_daily = [(u ''20240305_bodacc_update.jsonl'', [])], w_log = []\<rparr>
          [Success (example_page [4])]
   \<and> map_of [] (daily_name example_lib 738950) = (None :: ustr option)
   \<and> process_day example_lib example_cfg 738950
        [Success (example_page [4]), Success (example_page []), Success (example_page [])]
        \<lparr>w_tmp = [], w_daily = [], w_log = []\<rparr>
      = Returned
          \<lparr>w_tmp = [],
           w_daily = [(u ''20240305_bodacc_update.jsonl'', example_dumps (announcement 4) @ [10])],
           w_log = [Cleanup 738950,
                    Request (make_params example_cfg 738950 (u ''A'') 0),
                    Request (make_params example_cfg 738950 (u ''B'') 0),
                    Request (make_params example_cfg 738950 (u ''C'') 0),
                    Merge 738950]\<rparr> []
   \<and> (\<exists>ea eb ec.
         [Cleanup 738950,
          Request (make_params example_cfg 738950 (u ''A'') 0),
          Request (make_params example_cfg 738950 (u ''B'') 0),
          Request (make_params example_cfg 738950 (u ''C'') 0),
          Merge 738950] = [Cleanup 738950] @ ea @ eb @ ec @ [Merge 738950]
       \<and> (\<forall>p\<in>set (requests ea). where_publicationavis p = u ''A'')
       \<and> (\<forall>p\<in>set (requests eb). where_publicationavis p = u ''B'')
       \<and> (\<forall>p\<in>set (requests ec). where_publicationavis p = u ''C''))
   \<and> map_of (w_daily (state_of (run_days example_lib example_cfg [738949, 738950, 738951] []
        \<lparr>w_tmp = [], w_daily = [(u ''20240305_bodacc_update.jsonl'', u ''kept'')], w_log = []\<rparr>)))
        (u ''20240305_bodacc_update.jsonl'') = Some (u ''kept'')"
proof -
  let ?present = "\<lparr>w_tmp = [], w_daily = [(u ''20240305_bodacc_update.jsonl'', [])], w_log = []\<rparr>"
  let ?absent = "\<lparr>w_tmp = [], w_daily = [], w_log = []\<rparr>"
  let ?kept = "\<lparr>w_tmp = [], w_daily = [(u ''20240305_bodacc_update.jsonl'', u ''kept'')], w_log = []\<rparr>"
  let ?done = "\<lparr>w_tmp = [],
           w_daily = [(u ''20240305_bodacc_update.jsonl'', example_dumps (announcement 4) @ [10])],
           w_log = [Cleanup 738950,
                    Request (make_params example_cfg 738950 (u ''A'') 0),
                    Request (make_params example_cfg 738950 (u ''B'') 0),
                    Request (make_params example_cfg 738950 (u ''C'') 0),
                    Merge 738950]\<rparr>"
  have p: "map_of (w_daily ?present) (daily_name example_lib 738950) \<noteq> None"
    by simp
  have a: "map_of (w_daily ?absent) (daily_name example_lib 738950) = None
      \<and> process_day example_lib example_cfg 738950
        [Success (example_page [4]), Success (example_page []), Success (example_page [])] ?absent
      = Returned ?done []"
    using example_day by simp
  have k: "map_of (w_daily ?kept) (u ''20240305_bodacc_update.jsonl'') = Some (u ''kept'')"
    by simp
  note skip = existing_day_is_skipped [where w = ?present and lib = example_lib and day = 738950,
      THEN conjunct1, rule_format, OF p, of example_cfg "[Success (example_page [4])]"]
  note run = existing_day_is_skipped [where w = ?absent and lib = example_lib and day = 738950
      and w' = ?done and rs' = "[]", THEN conjunct2, THEN conjunct1, rule_format, OF a,
      THEN conjunct2]
  note keep = existing_day_is_skipped [where w = ?kept, THEN conjunct2, THEN conjunct2, rule_format,
      OF k, of example_lib example_cfg "[738949, 738950, 738951]" "[]"]
  from run obtain ea eb ec where
    "w_log ?done = w_log ?absent @ [Cleanup 738950] @ ea @ eb @ ec @ [Merge 738950]"
    "\<forall>p\<in>set (requests ea). refine_dateparution p = 738950 \<and> where_publicationavis p = u ''A''"
    "\<forall>p\<in>set (requests eb). refine_dateparution p = 738950 \<and> where_publicationavis p = u ''B''"
    "\<forall>p\<in>set (requests ec). refine_dateparution p = 738950 \<and> where_publicationavis p = u ''C''"
    by blast
  then have "\<exists>ea eb ec.
         [Cleanup 738950,
          Request (make_params example_cfg 738950 (u ''A'') 0),
          Request (make_params example_cfg 738950 (u ''B'') 0),
          Request (make_params example_cfg 738950 (u ''C'') 0),
          Merge 738950] = [Cleanup 738950] @ ea @ eb @ ec @ [Merge 738950]
       \<and> (\<forall>p\<in>set (requests ea). where_publicationavis p = u ''A'')
       \<and> (\<forall>p\<in>set (requests eb). where_publicationavis p = u ''B'')
       \<and> (\<forall>p\<in>set (requests ec). where_publicationavis p = u ''C'')"
    by (intro exI [of _ ea] exI [of _ eb] exI [of _ ec]) simp
  then show ?thesis
    using p a skip keep by simp
qed

section \<open>Properties of \<open>_merge_day_parts\<close>\<close>

lemma append_less_append: "(xs @ a < xs @ b) \<longleftrightarrow> (a < b)" for a b :: "'a::linorder list"
  by (induction xs) simp_all

lemma format_03d_1000_less_101: "format_03d 1000 @ s < format_03d 101 @ t"
  by (simp add: u_def)

lemma part_name_1000_less_101:
  "part_name lib day cat 1000 < part_name lib day cat 101"
  unfolding part_name_def by (simp only: append_less_append format_03d_1000_less_101)

lemma is_day_part_part_name: "is_day_part lib day (part_name lib day cat pidx)"
  by (simp add: is_day_part_def glob_match_def part_name_def suffix_def)

lemma sorted_before:
  assumes "sorted (map f xs)" and "p \<in> set xs" and "q \<in> set xs" and "f p < f q"
  shows "\<exists>a b c. xs = a @ p # b @ q # c"
proof -
  from split_list [OF assms(2)] obtain a r where xs: "xs = a @ p # r"
    by blast
  have "q \<notin> set a"
  proof
    assume "q \<in> set a"
    then have "f q \<le> f p"
      using assms(1) unfolding xs by (auto simp: sorted_append)
    with assms(4) show False by simp
  qed
  moreover have "q \<noteq> p"
    using assms(4) by auto
  ultimately have "q \<in> set r"
    using assms(3) unfolding xs by auto
  from split_list [OF this] obtain b c where "r = b @ q # c"
    by blast
  with xs show ?thesis by blast
qed

lemma sort_key_Nil_iff [simp]: "sort_key f xs = [] \<longleftrightarrow> xs = []"
  by (metis length_sort length_0_conv)

lemma merge_without_parts:
  assumes "filter (\<lambda>file. is_day_part lib day (fst file)) tmp = []"
    and "map_of daily (daily_name lib day) = None"
  shows "merge_day_parts lib tmp day daily = (tmp, daily @ [(daily_name lib day, [])])"
  using assms by (simp add: merge_day_parts_def touch_def)

lemma merge_unlinks_parts:
  "fst (merge_day_parts lib tmp day daily) = filter (\<lambda>file. \<not> is_day_part lib day (fst file)) tmp"
proof (cases "filter (\<lambda>file. is_day_part lib day (fst file)) tmp = []")
  case True
  then have "\<forall>file\<in>set tmp. \<not> is_day_part lib day (fst file)"
    by (simp add: filter_empty_conv)
  then have "filter (\<lambda>file. \<not> is_day_part lib day (fst file)) tmp = tmp"
    by simp
  with True show ?thesis
    by (simp add: merge_day_parts_def)
next
  case False
  have "filter (\<lambda>file. fst file \<notin> fst ` set (sort_key fst (filter (\<lambda>file. is_day_part lib day (fst file)) tmp))) tmp
          = filter (\<lambda>file. \<not> is_day_part lib day (fst file)) tmp"
    by (rule filter_cong) (auto simp: image_iff)
  with False show ?thesis
    by (simp add: merge_day_parts_def Let_def)
qed

text \<open>
  C5. The merge sorts the fragments by file name, and \<open>{page_idx:03d}\<close> pads the page
  number to three digits only: the name of page 1000 sorts before the name of page 101.
  So in the merged file of a day with a thousand pages in one category, the text of
  page 1000 comes before the text of page 101, against the page order.
\<close>

theorem merge_puts_page_1000_before_page_101:
  assumes "(part_name lib day cat 101, t101) \<in> set tmp"
    and "(part_name lib day cat 1000, t1000) \<in> set tmp"
  shows "\<exists>a b c. map_of (snd (merge_day_parts lib tmp day daily)) (daily_name lib day)
                   = Some (a @ t1000 @ b @ t101 @ c)"
proof -
  let ?parts = "sort_key fst (filter (\<lambda>file. is_day_part lib day (fst file)) tmp)"
  have in101: "(part_name lib day cat 101, t101) \<in> set ?parts"
    and in1000: "(part_name lib day cat 1000, t1000) \<in> set ?parts"
    using assms by (simp_all add: is_day_part_part_name)
  have ne: "?parts \<noteq> []"
    by (metis in101 empty_iff empty_set)
  have "sorted (map fst ?parts)"
    by simp
  from sorted_before [OF this in1000 in101] part_name_1000_less_101
  obtain x y z where parts: "?parts = x @ (part_name lib day cat 1000, t1000) # y
      @ (part_name lib day cat 101, t101) # z"
    by auto
  have "concat (map snd ?parts)
          = concat (map snd x) @ t1000 @ concat (map snd y) @ t101 @ concat (map snd z)"
    unfolding parts by simp
  moreover have "map_of (snd (merge_day_parts lib tmp day daily)) (daily_name lib day)
          = Some (concat (map snd ?parts))"
    using ne by (simp add: merge_day_parts_def Let_def update_conv')
  ultimately show ?thesis
    by auto
qed

text \<open>
  With only these two fragments in the directory, the day's file is page 1000 followed by
  page 101.
\<close>

theorem merge_puts_page_1000_before_page_101_witness:
  "merge_day_parts example_lib
     [(part_name example_lib 738950 (u ''A'') 101, example_dumps (announcement 101) @ [10]),
      (part_name example_lib 738950 (u ''A'') 1000, example_dumps (announcement 1000) @ [10])]
     738950 []
   = ([], [(u ''20240305_bodacc_update.jsonl'',
            example_dumps (announcement 1000) @ [10] @ example_dumps (announcement 101) @ [10])])"
proof -
  let ?t101 = "example_dumps (announcement 101) @ [10]"
  let ?t1000 = "example_dumps (announcement 1000) @ [10]"
  let ?tmp = "[(part_name example_lib 738950 (u ''A'') 101, ?t101),
               (part_name example_lib 738950 (u ''A'') 1000, ?t1000)]"
  have "(part_name example_lib 738950 (u ''A'') 101, ?t101) \<in> set ?tmp"
    and "(part_name example_lib 738950 (u ''A'') 1000, ?t1000) \<in> set ?tmp"
    by simp_all
  from merge_puts_page_1000_before_page_101 [OF this, of "[]"]
  obtain a b c where "map_of (snd (merge_day_parts example_lib ?tmp 738950 [])) (daily_name example_lib 738950)
      = Some (a @ ?t1000 @ b @ ?t101 @ c)"
    by blast
  moreover have "merge_day_parts example_lib ?tmp 738950 []
      = ([], [(u ''20240305_bodacc_update.jsonl'', ?t1000 @ ?t101)])"
    by (simp add: merge_day_parts_def part_name_def is_day_part_def glob_match_def
        suffix_to_prefix u_def daily_name_def)
  ultimately show ?thesis
    by simp
qed

section \<open>Properties of \<open>_matched_sirens\<close>\<close>

lemma u_eq_Nil_iff [simp]: "u s = [] \<longleftrightarrow> s = []" "[] = u s \<longleftrightarrow> s = []"
  by (auto simp: u_def)

lemma clean_registre_loop_eq:
  "clean_registre_loop lib cleaned vs =
   cleaned @ filter (\<lambda>d. d \<noteq> [])
               (map (filter (py_isdigit lib))
                  (List.map_filter (\<lambda>v. case v of JStr s \<Rightarrow> Some s | _ \<Rightarrow> None) vs))"
  by (induction vs arbitrary: cleaned) (auto simp: Let_def split: json.splits)

lemma matched_sirens_eq:
  "matched_sirens lib record sirens
     = filter (\<lambda>d. d \<noteq> [] \<and> d \<in> sirens)
         (map (filter (py_isdigit lib)) (registre_candidates record))"
proof (cases "map_of record (u ''registre'')")
  case None
  then show ?thesis
    by (simp add: matched_sirens_def dict_get_def registre_candidates_def)
next
  case (Some v)
  then show ?thesis
    by (cases v)
      (auto simp: matched_sirens_def dict_get_def registre_candidates_def
        clean_registre_values_def clean_registre_loop_eq conj_commute)
qed

lemma example_isdigit:
  "filter latin1_isdigit (u ''123 456 789'') = u ''123456789''"
  "filter latin1_isdigit (u ''123456789'') = u ''123456789''"
  "filter latin1_isdigit (u ''SIREN:123456789'') = u ''123456789''"
  by (simp_all add: u_def latin1_isdigit_def)

text \<open>
  C7. The SIRENs matched by a record are the candidates of its \<open>registre\<close> field (the
  string, or the strings of the list), each with every non-digit character removed, that
  are not empty and are keys of the registry, in the order of the candidates. Since no
  key of the registry is empty, the record passes exactly when some stripped candidate is
  a key. Two records whose candidates have the same digits match the same SIRENs.
  \<open>"123 456 789"\<close>, \<open>"123456789"\<close> and \<open>"SIREN:123456789"\<close> match the key \<open>"123456789"\<close>.
  A record without \<open>registre\<close>, or with one that is neither a string nor a list, matches
  nothing.
\<close>

theorem identifier_match_ignores_non_digits:
  "matched_sirens lib record sirens
     = filter (\<lambda>d. d \<noteq> [] \<and> d \<in> sirens)
         (map (filter (py_isdigit lib)) (registre_candidates record))
   \<and> ([] \<notin> sirens \<longrightarrow>
        (matched_sirens lib record sirens \<noteq> []
          \<longleftrightarrow> (\<exists>c\<in>set (registre_candidates record). filter (py_isdigit lib) c \<in> sirens)))
   \<and> (map (filter (py_isdigit lib)) (registre_candidates record)
         = map (filter (py_isdigit lib)) (registre_candidates record') \<longrightarrow>
        matched_sirens lib record sirens = matched_sirens lib record' sirens)
   \<and> matched_sirens example_lib [(u ''registre'', JStr (u ''123 456 789''))] {u ''123456789''}
        = [u ''123456789'']
   \<and> matched_sirens example_lib [(u ''registre'', JStr (u ''123456789''))] {u ''123456789''}
        = [u ''123456789'']
   \<and> matched_sirens example_lib [(u ''registre'', JStr (u ''SIREN:123456789''))] {u ''123456789''}
        = [u ''123456789'']
   \<and> (map_of record (u ''registre'') = None \<longrightarrow> matched_sirens lib record sirens = [])
   \<and> (map_of record (u ''registre'') = Some v \<and> (\<forall>s. v \<noteq> JStr s) \<and> (\<forall>vs. v \<noteq> JList vs) \<longrightarrow>
        matched_sirens lib record sirens = [])"
proof -
  have iff: "matched_sirens lib record sirens \<noteq> []
          \<longleftrightarrow> (\<exists>c\<in>set (registre_candidates record). filter (py_isdigit lib) c \<in> sirens)"
    if "[] \<notin> sirens"
  proof -
    have "matched_sirens lib record sirens \<noteq> []
        \<longleftrightarrow> (\<exists>d\<in>set (map (filter (py_isdigit lib)) (registre_candidates record)).
              d \<noteq> [] \<and> d \<in> sirens)"
      unfolding matched_sirens_eq by (simp add: filter_empty_conv)
    also have "\<dots> \<longleftrightarrow> (\<exists>c\<in>set (registre_candidates record). filter (py_isdigit lib) c \<in> sirens)"
      using that by (auto simp: image_iff) metis
    finally show ?thesis .
  qed
  have other: "matched_sirens lib record sirens = []"
    if "map_of record (u ''registre'') = Some v" "\<forall>s. v \<noteq> JStr s" "\<forall>vs. v \<noteq> JList vs"
    using that by (cases v) (simp_all add: matched_sirens_eq registre_candidates_def)
  have absent: "matched_sirens lib record sirens = []" if "map_of record (u ''registre'') = None"
    using that by (simp add: matched_sirens_eq registre_candidates_def)
  have examples:
    "matched_sirens example_lib [(u ''registre'', JStr (u ''123 456 789''))] {u ''123456789''}
        = [u ''123456789'']"
    "matched_sirens example_lib [(u ''registre'', JStr (u ''123456789''))] {u ''123456789''}
        = [u ''123456789'']"
    "matched_sirens example_lib [(u ''registre'', JStr (u ''SIREN:123456789''))] {u ''123456789''}
        = [u ''123456789'']"
    by (simp_all add: matched_sirens_eq registre_candidates_def example_isdigit)
  show ?thesis
    using iff other absent examples by (simp add: matched_sirens_eq)
qed

theorem identifier_match_ignores_non_digits_witness:
  "[] \<notin> {u ''123456789''}
   \<and> registre_candidates example_record_c = [u ''SIREN:123456789'']
   \<and> matched_sirens example_lib example_record_c {u ''123456789''} \<noteq> []
   \<and> map (filter (py_isdigit example_lib)) (registre_candidates example_record_c)
       = map (filter (py_isdigit example_lib)) (registre_candidates example_record_a)
   \<and> matched_sirens example_lib example_record_c {u ''123456789''}
       = matched_sirens example_lib example_record_a {u ''123456789''}
   \<and> map_of [(u ''registre'', JInt 123456789)] (u ''registre'') = Some (JInt 123456789)
   \<and> matched_sirens example_lib [(u ''registre'', JInt 123456789)] {u ''123456789''} = []"
proof -
  have ne: "[] \<notin> {u ''123456789''}"
    by (simp add: u_def)
  have cc: "registre_candidates example_record_c = [u ''SIREN:123456789'']"
    and ca: "registre_candidates example_record_a = [u ''123 456 789'']"
    by (simp_all add: registre_candidates_def example_record_c_def example_record_a_def)
  have ex: "\<exists>c\<in>set (registre_candidates example_record_c).
              filter (py_isdigit example_lib) c \<in> {u ''123456789''}"
    by (simp add: cc example_isdigit)
  have same: "map (filter (py_isdigit example_lib)) (registre_candidates example_record_c)
       = map (filter (py_isdigit example_lib)) (registre_candidates example_record_a)"
    by (simp add: cc ca example_isdigit)
  have int: "map_of [(u ''registre'', JInt 123456789)] (u ''registre'') = Some (JInt 123456789)
      \<and> (\<forall>s. JInt 123456789 \<noteq> JStr s) \<and> (\<forall>vs. JInt 123456789 \<noteq> JList vs)"
    by simp
  note inst = identifier_match_ignores_non_digits [where lib = example_lib
      and sirens = "{u ''123456789''}"]
  from inst [of example_record_c, THEN conjunct2, THEN conjunct1, rule_format, OF ne] ex
  have 1: "matched_sirens example_lib example_record_c {u ''123456789''} \<noteq> []"
    by simp
  from inst [of example_record_c example_record_a,
      THEN conjunct2, THEN conjunct2, THEN conjunct1, rule_format, OF same]
  have 2: "matched_sirens example_lib example_record_c {u ''123456789''}
       = matched_sirens example_lib example_record_a {u ''123456789''}" .
  from inst [of "[(u ''registre'', JInt 123456789)]" _ "JInt 123456789",
      THEN conjunct2, THEN conjunct2, THEN conjunct2, THEN conjunct2, THEN conjunct2,
      THEN conjunct2, THEN conjunct2, rule_format, OF int]
  have 3: "matched_sirens example_lib [(u ''registre'', JInt 123456789)] {u ''123456789''} = []" .
  show ?thesis
    using ne cc 1 same 2 3 by simp
qed

section \<open>Properties of \<open>_flag_keywords\<close>\<close>

lemma str_in_iff: "str_in k s \<longleftrightarrow> (\<exists>a b. s = a @ k @ b)"
proof (induction s)
  case Nil
  then show ?case by auto
next
  case (Cons c s)
  have "(\<exists>a b. c # s = a @ k @ b) \<longleftrightarrow> prefix k (c # s) \<or> (\<exists>a b. s = a @ k @ b)"
  proof
    assume "\<exists>a b. c # s = a @ k @ b"
    then obtain a b where ab: "c # s = a @ k @ b" by blast
    show "prefix k (c # s) \<or> (\<exists>a b. s = a @ k @ b)"
    proof (cases a)
      case Nil
      with ab show ?thesis by (auto simp: prefix_def)
    next
      case (Cons x a')
      with ab have "s = a' @ k @ b" by simp
      then show ?thesis by blast
    qed
  next
    assume "prefix k (c # s) \<or> (\<exists>a b. s = a @ k @ b)"
    then show "\<exists>a b. c # s = a @ k @ b"
    proof
      assume "prefix k (c # s)"
      then obtain b where "c # s = k @ b" by (auto simp: prefix_def)
      then have "c # s = [] @ k @ b" by simp
      then show ?thesis by blast
    next
      assume "\<exists>a b. s = a @ k @ b"
      then obtain a b where "s = a @ k @ b" by blast
      then have "c # s = (c # a) @ k @ b" by simp
      then show ?thesis by blast
    qed
  qed
  with Cons show ?case by simp
qed

lemma flag_keywords_iff:
  "flag_keywords lib text keywords
     \<longleftrightarrow> text \<noteq> [] \<and> (\<exists>k\<in>set keywords. \<exists>a b. normalize_text lib text = a @ k @ b)"
  by (simp add: flag_keywords_def Let_def list_ex_iff str_in_iff)

lemma normalize_example_append:
  "normalize_text example_lib (a @ b) = normalize_text example_lib a @ normalize_text example_lib b"
  by (simp add: normalize_text_def)

lemma normalize_examples:
  "normalize_text example_lib (u ''Liquidation Judiciaire'') = u ''liquidation judiciaire''"
  "normalize_text example_lib (u ''cl'' @ [244] @ u ''ture pour insuffisance d'actifs'')
     = u ''cloture pour insuffisance d'actifs''"
  by (simp_all add: normalize_text_def u_def latin1_lower_def latin1_nfd_def
      latin1_decomposition_def)


lemma flag_example_liquidation:
  "flag_keywords example_lib (before @ u ''Liquidation Judiciaire'' @ after)
     [u ''liquidation judiciaire'']"
proof -
  have "\<exists>a b. normalize_text example_lib (before @ u ''Liquidation Judiciaire'' @ after)
           = a @ u ''liquidation judiciaire'' @ b"
    by (intro exI [of _ "normalize_text example_lib before"]
        exI [of _ "normalize_text example_lib after"])
      (simp only: normalize_example_append normalize_examples)
  then show ?thesis
    by (simp add: flag_keywords_iff)
qed

text \<open>
  C8. The keyword test holds of a text exactly when the text is not empty and some
  keyword occurs as a contiguous part of the normalized text, which is the text in lower
  case, decomposed (NFD), without its characters of category \<open>Mn\<close>. A text that contains
  \<open>Liquidation Judiciaire\<close> matches the keyword \<open>liquidation judiciaire\<close>, a text that
  contains \<open>cl\<close>, U+00F4, \<open>ture pour insuffisance d'actifs\<close> matches the keyword
  \<open>cloture pour insuffisance d'actifs\<close>, and the empty text matches no keyword.
\<close>

theorem keyword_match_after_normalization:
  "(flag_keywords lib text keywords
      \<longleftrightarrow> text \<noteq> [] \<and> (\<exists>k\<in>set keywords. \<exists>a b. normalize_text lib text = a @ k @ b))
   \<and> normalize_text lib text = filter (\<lambda>c. \<not> py_is_Mn lib c) (py_nfd lib (py_lower lib text))
   \<and> flag_keywords example_lib (before @ u ''Liquidation Judiciaire'' @ after)
         [u ''liquidation judiciaire'']
   \<and> flag_keywords example_lib
         (before @ (u ''cl'' @ [244] @ u ''ture pour insuffisance d'actifs'') @ after)
         [u ''cloture pour insuffisance d'actifs'']
   \<and> \<not> flag_keywords lib [] keywords"
proof -
  have 1: "flag_keywords example_lib (before @ u ''Liquidation Judiciaire'' @ after)
         [u ''liquidation judiciaire'']"
    by (rule flag_example_liquidation)
  have "\<exists>a b. normalize_text example_lib
                 (before @ (u ''cl'' @ [244] @ u ''ture pour insuffisance d'actifs'') @ after)
           = a @ u ''cloture pour insuffisance d'actifs'' @ b"
    by (intro exI [of _ "normalize_text example_lib before"]
        exI [of _ "normalize_text example_lib after"])
      (simp only: normalize_example_append [of before] normalize_example_append [of _ after]
        normalize_examples)
  then have 2: "flag_keywords example_lib
         (before @ (u ''cl'' @ [244] @ u ''ture pour insuffisance d'actifs'') @ after)
         [u ''cloture pour insuffisance d'actifs'']"
    by (simp add: flag_keywords_iff u_def)
  show ?thesis
    using 1 2 by (simp add: flag_keywords_iff normalize_text_def)
qed

theorem keyword_match_after_normalization_witness:
  "u ''Jugement de LIQUIDATION judiciaire simplifi'' @ [233, 101] \<noteq> []
   \<and> normalize_text example_lib (u ''Jugement de LIQUIDATION judiciaire simplifi'' @ [233, 101])
       = u ''jugement de liquidation judiciaire simplifiee''
   \<and> flag_keywords example_lib (u ''Jugement de LIQUIDATION judiciaire simplifi'' @ [233, 101])
        [u ''sauvegarde'', u ''liquidation judiciaire'']
   \<and> \<not> flag_keywords example_lib (u ''Jugement de LIQUIDATION judiciaire simplifi'' @ [233, 101])
        [u ''sauvegarde'', u ''radiation'']"
proof -
  let ?text = "u ''Jugement de LIQUIDATION judiciaire simplifi'' @ [233, 101]"
  have ne: "?text \<noteq> []"
    by simp
  have n: "normalize_text example_lib ?text = u ''jugement de liquidation judiciaire simplifiee''"
    by (simp add: normalize_text_def u_def latin1_lower_def latin1_nfd_def
        latin1_decomposition_def)
  have "u ''jugement de liquidation judiciaire simplifiee''
          = u ''jugement de '' @ u ''liquidation judiciaire'' @ u '' simplifiee''"
    by (simp add: u_def)
  then have yes: "\<exists>k\<in>set [u ''sauvegarde'', u ''liquidation judiciaire'']. \<exists>a b.
      normalize_text example_lib ?text = a @ k @ b"
    unfolding n by (metis list.set_intros(1,2))
  have no: "\<not> (\<exists>k\<in>set [u ''sauvegarde'', u ''radiation'']. \<exists>a b.
      normalize_text example_lib ?text = a @ k @ b)"
    unfolding n str_in_iff [symmetric] by (simp add: u_def)
  note inst = keyword_match_after_normalization [of example_lib "?text", THEN conjunct1]
  show ?thesis
    using ne n yes no inst [of "[u ''sauvegarde'', u ''liquidation judiciaire'']"]
      inst [of "[u ''sauvegarde'', u ''radiation'']"]
    by blast
qed


section \<open>Properties of \<open>_deep_collect_text\<close> and \<open>_should_tag_topage\<close>\<close>

lemma extend_texts_eq:
  "extend_texts lib texts vs = texts @ concat (map (deep_collect_text lib) vs)"
  by (induction vs arbitrary: texts) simp_all

lemma text_parts_loop_eq:
  "text_parts_loop lib record text_parts fs
     = text_parts @ concat (map (deep_collect_text lib) (List.map_filter (map_of record) fs))"
  by (induction fs arbitrary: text_parts) (simp_all add: List.map_filter_simps split: option.splits)

text \<open>
  C9. The collector gives, for a dictionary, the collections of its values one after the
  other; for a list, those of its elements; for a string, the string and then, when it
  parses as JSON, the collection of the parsed value; nothing for \<open>None\<close>, a boolean or a
  number. A record is tagged when the keyword list is not empty and the keyword test holds
  of the collections, joined by spaces, of the values of those of the ten fields, in
  their fixed order, that the record has.
\<close>

theorem deep_collect_text_walk:
  "deep_collect_text lib (JObj kvs) = concat (map (\<lambda>kv. deep_collect_text lib (snd kv)) kvs)
   \<and> deep_collect_text lib (JList vs) = concat (map (deep_collect_text lib) vs)
   \<and> deep_collect_text lib (JStr s)
       = s # (case loads (py_loads lib) s of
                Some parsed \<Rightarrow> deep_collect_text lib parsed
              | None \<Rightarrow> [])
   \<and> deep_collect_text lib JNull = []
   \<and> deep_collect_text lib (JBool b) = []
   \<and> deep_collect_text lib (JInt n) = []
   \<and> should_tag_topage lib record keywords
       = (keywords \<noteq> []
          \<and> flag_keywords lib
               (join (u '' '')
                  (concat (map (deep_collect_text lib)
                     (List.map_filter (map_of record)
                        [u ''texte'', u ''text'', u ''objet'', u ''description'', u ''resume'',
                         u ''familleavis_lib'', u ''typeavis_lib'', u ''jugement'',
                         u ''modificationsgenerales'', u ''divers'']))))
               keywords)"
  by (simp add: extend_texts_eq comp_def should_tag_topage_def text_parts_loop_eq tag_fields_def
      TEXT_COLUMNS_CANDIDATES_def split: option.splits)

lemma loads_example_jugement:
  "loads (py_loads example_lib) (example_dumps example_jugement) = Some example_jugement"
  by (simp add: example_lib_def example_loads.rep_eq example_documents_def example_jugement_def
      example_record_a_def example_record_b_def example_record_c_def escape_def u_def dec.simps)


lemma loads_example_plain:
  "loads (py_loads example_lib) (u ''Liquidation Judiciaire'') = None"
  "loads (py_loads example_lib) (u ''liquidation judiciaire'') = None"
  "loads (py_loads example_lib) (u ''2024-03-06'') = None"
  "loads (py_loads example_lib) (u ''SIREN:123456789'') = None"
  by (simp_all add: example_lib_def example_loads.rep_eq example_documents_def
      example_jugement_def example_record_a_def example_record_b_def example_record_c_def
      escape_def u_def dec.simps)

theorem deep_collect_text_walk_witness:
  "deep_collect_text example_lib (JStr (example_dumps example_jugement))
     = [example_dumps example_jugement, u ''Liquidation Judiciaire'']
   \<and> deep_collect_text example_lib
        (JObj [(u ''a'', JList [JStr (u ''2024-03-06''), JInt 3, JNull]),
               (u ''b'', JObj [(u ''c'', JStr (u ''SIREN:123456789'')), (u ''d'', JBool True)])])
     = [u ''2024-03-06'', u ''SIREN:123456789'']
   \<and> should_tag_topage example_lib example_record_c [u ''liquidation judiciaire'']
   \<and> \<not> should_tag_topage example_lib
          [(u ''commercant'', JStr (u ''liquidation judiciaire''))] [u ''liquidation judiciaire'']"
proof -
  note walk = deep_collect_text_walk [where lib = example_lib]
  have inner: "deep_collect_text example_lib example_jugement = [u ''Liquidation Judiciaire'']"
    using walk [of "[(u ''nature'', JStr (u ''Liquidation Judiciaire''))]" _
        "u ''Liquidation Judiciaire''"]
    by (simp add: example_jugement_def loads_example_plain)
  have 1: "deep_collect_text example_lib (JStr (example_dumps example_jugement))
     = [example_dumps example_jugement, u ''Liquidation Judiciaire'']"
    using walk [of _ _ "example_dumps example_jugement"]
    by (simp add: loads_example_jugement inner)
  have 2: "deep_collect_text example_lib
        (JObj [(u ''a'', JList [JStr (u ''2024-03-06''), JInt 3, JNull]),
               (u ''b'', JObj [(u ''c'', JStr (u ''SIREN:123456789'')), (u ''d'', JBool True)])])
     = [u ''2024-03-06'', u ''SIREN:123456789'']"
    using walk [of "[(u ''a'', JList [JStr (u ''2024-03-06''), JInt 3, JNull]),
               (u ''b'', JObj [(u ''c'', JStr (u ''SIREN:123456789'')), (u ''d'', JBool True)])]"]
      walk [of "[(u ''c'', JStr (u ''SIREN:123456789'')), (u ''d'', JBool True)]"
        "[JStr (u ''2024-03-06''), JInt 3, JNull]"]
    by (simp add: loads_example_plain)
  have parts: "List.map_filter (map_of example_record_c)
                 [u ''texte'', u ''text'', u ''objet'', u ''description'', u ''resume'',
                  u ''familleavis_lib'', u ''typeavis_lib'', u ''jugement'',
                  u ''modificationsgenerales'', u ''divers'']
               = [JStr (example_dumps example_jugement)]"
    by (simp add: List.map_filter_simps example_record_c_def)
  have f: "flag_keywords example_lib
          (example_dumps example_jugement @ u '' '' @ u ''Liquidation Judiciaire'' @ [])
          [u ''liquidation judiciaire'']"
    using flag_example_liquidation [of "example_dumps example_jugement @ u '' ''" "[]"]
    by simp
  note tag = deep_collect_text_walk [THEN conjunct2, THEN conjunct2, THEN conjunct2,
      THEN conjunct2, THEN conjunct2, THEN conjunct2]
  have 3: "should_tag_topage example_lib example_record_c [u ''liquidation judiciaire'']"
    unfolding tag parts using f by (simp add: loads_example_jugement inner)
  have "List.map_filter (map_of [(u ''commercant'', JStr (u ''liquidation judiciaire''))])
                 [u ''texte'', u ''text'', u ''objet'', u ''description'', u ''resume'',
                  u ''familleavis_lib'', u ''typeavis_lib'', u ''jugement'',
                  u ''modificationsgenerales'', u ''divers''] = []"
    by (simp add: List.map_filter_simps)
  then have 4: "\<not> should_tag_topage example_lib
          [(u ''commercant'', JStr (u ''liquidation judiciaire''))] [u ''liquidation judiciaire'']"
    unfolding tag by (simp add: flag_keywords_def)
  show ?thesis
    using 1 2 3 4 by simp
qed

end
